theory Spec2Isabelle
  imports Complex_Main
begin

section \<open>History store (src/hooks/useHistory.ts)\<close>

text \<open>
  The hook keeps two pieces of React state: the snapshot array \<open>history\<close> and the
  number \<open>index\<close>. Each operation below is one call of the corresponding callback
  followed by the re-render, so the \<open>index\<close> captured by the \<open>pushState\<close> closure is
  the index of the state it is applied to. \<open>index\<close> is a JavaScript number that only
  ever holds integers, hence \<open>int\<close>.
\<close>

record 'a hist =
  history :: "'a list"
  index :: int

definition useHistory :: "'a \<Rightarrow> 'a hist" where
  "useHistory initialState = \<lparr>history = [initialState], index = 0\<rparr>"

text \<open>\<open>prev.slice(0, e)\<close>: a negative end counts from the end of the array.\<close>

definition slice0 :: "'a list \<Rightarrow> int \<Rightarrow> 'a list" where
  "slice0 xs e = (if e < 0 then take (nat (int (length xs) + e)) xs else take (nat e) xs)"

text \<open>\<open>newHistory.shift()\<close> removes the first element.\<close>

definition shift :: "'a list \<Rightarrow> 'a list" where
  "shift xs = tl xs"

definition pushState :: "'a hist \<Rightarrow> 'a \<Rightarrow> 'a hist" where
  "pushState h newState =
     (let newHistory = slice0 (history h) (index h + 1) @ [newState];
          newHistory = (if length newHistory > 50 then shift newHistory else newHistory);
          nextIndex = index h + 1
      in \<lparr>history = newHistory, index = (if nextIndex > 50 then 50 else nextIndex)\<rparr>)"

definition undo :: "'a hist \<Rightarrow> 'a hist" where
  "undo h = h\<lparr>index := max 0 (index h - 1)\<rparr>"

definition redo :: "'a hist \<Rightarrow> 'a hist" where
  "redo h = h\<lparr>index := min (int (length (history h)) - 1) (index h + 1)\<rparr>"

text \<open>\<open>history[index]\<close>: reading outside the array gives \<open>undefined\<close>, here \<open>None\<close>.\<close>

definition currentState :: "'a hist \<Rightarrow> 'a option" where
  "currentState h =
     (if 0 \<le> index h \<and> index h < int (length (history h))
      then Some (history h ! nat (index h)) else None)"

definition canUndo :: "'a hist \<Rightarrow> bool" where
  "canUndo h = (index h > 0)"

definition canRedo :: "'a hist \<Rightarrow> bool" where
  "canRedo h = (index h < int (length (history h)) - 1)"

text \<open>A run of pushes, and a run of undo/redo steps.\<close>

definition pushAll :: "'a hist \<Rightarrow> 'a list \<Rightarrow> 'a hist" where
  "pushAll h xs = foldl pushState h xs"

datatype nav = Undo | Redo

fun navStep :: "'a hist \<Rightarrow> nav \<Rightarrow> 'a hist" where
  "navStep h Undo = undo h"
| "navStep h Redo = redo h"

definition navAll :: "'a hist \<Rightarrow> nav list \<Rightarrow> 'a hist" where
  "navAll h ns = foldl navStep h ns"


section \<open>Types and constants (types.ts)\<close>

text \<open>
  A JavaScript \<open>number\<close> that may be \<open>NaN\<close>. Coordinates, widths and scale factors
  are finite numbers and are modelled as \<open>real\<close>; \<open>jsnum\<close> is used where the source
  tests for \<open>NaN\<close> (the base counts of the grid). Infinite values are not modelled.
\<close>

datatype jsnum = NaN | Num real

text \<open>
  Field names \<open>x\<close>, \<open>y\<close> and \<open>id\<close> of the source are written with a prefix, since a
  record field is a constant of the theory.
\<close>

record Point =
  px :: real
  py :: real

record Vertex =
  vx :: real
  vy :: real
  originalX :: real
  originalY :: real
  v_id :: nat

text \<open>\<open>v_indices\<close> is the tuple TopLeft, TopRight, BottomRight, BottomLeft.\<close>

record Cell =
  c_id :: nat
  v_indices :: "nat \<times> nat \<times> nat \<times> nat"
  color :: "string option"
  isFilled :: bool

text \<open>
  A JavaScript string where its characters are read one by one (the rule string): the
  list of its UTF-16 code units. \<open>js\<close> writes an ASCII literal as code units.
\<close>

type_synonym jsstring = "nat list"

definition js :: "string \<Rightarrow> jsstring" where
  "js s = map of_char s"

record GridConfig =
  baseCols :: jsnum
  baseRows :: jsnum
  ruleString :: jsstring

text \<open>
  \<open>Record<number, number>\<close>: keys are array indices; the multipliers are the
  natural numbers that \<open>parseSubdivisionRules\<close> reads from a digit string.
\<close>

record SubdivisionRules =
  cols :: "nat \<rightharpoonup> nat"
  rows :: "nat \<rightharpoonup> nat"

record EditorState =
  vertices :: "Vertex list"
  cells :: "Cell list"
  boundaryPoints :: "Point list"
  gridConfig :: GridConfig

definition SVG_WIDTH :: real where
  "SVG_WIDTH = 1000"

definition SVG_HEIGHT :: real where
  "SVG_HEIGHT = 2000"

definition GRID_MARGIN :: real where
  "GRID_MARGIN = 50"

section \<open>Rule parsing (src/utils/geometry.ts, parseSubdivisionRules)\<close>

text \<open>
  \<open>is_space\<close> is the white space of \<open>trim\<close> and of \<open>\s\<close>: the WhiteSpace and
  LineTerminator code points of ECMAScript, that is tab, line feed, vertical tab, form
  feed, carriage return, space, no-break space (U+00A0), ogham space mark (U+1680), the
  spaces U+2000 to U+200A, line and paragraph separator (U+2028, U+2029), U+202F, U+205F,
  the ideographic space (U+3000) and the byte order mark (U+FEFF). \<open>is_digit\<close> is
  \<open>\d\<close>, the digits 0 to 9. The code units 67, 82, 58 and 44 are the letters C and R,
  the colon and the comma.
\<close>

definition is_space :: "nat \<Rightarrow> bool" where
  "is_space u =
     ((9 \<le> u \<and> u \<le> 13) \<or> u = 32 \<or> u = 160 \<or> u = 5760 \<or> (8192 \<le> u \<and> u \<le> 8202) \<or>
      u = 8232 \<or> u = 8233 \<or> u = 8239 \<or> u = 8287 \<or> u = 12288 \<or> u = 65279)"

definition is_digit :: "nat \<Rightarrow> bool" where
  "is_digit u = (48 \<le> u \<and> u \<le> 57)"

text \<open>
  \<open>toUpperCase\<close> maps the letters a to z to A to Z and keeps every other ASCII
  character. A character outside ASCII is kept as it is: white space is its own upper
  case, and the upper-case form of any other character outside ASCII holds no C, no R,
  no digit, no colon and no white space, which is all that the pattern below tells
  apart.
\<close>

definition toUpperCase_unit :: "nat \<Rightarrow> nat" where
  "toUpperCase_unit u = (if 97 \<le> u \<and> u \<le> 122 then u - 32 else u)"

definition toUpperCase :: "jsstring \<Rightarrow> jsstring" where
  "toUpperCase s = map toUpperCase_unit s"

definition trim :: "jsstring \<Rightarrow> jsstring" where
  "trim s = rev (dropWhile is_space (rev (dropWhile is_space s)))"

text \<open>\<open>s.split(',')\<close>: the pieces between commas, empty pieces included.\<close>

fun split_comma :: "jsstring \<Rightarrow> jsstring list" where
  "split_comma [] = [[]]"
| "split_comma (c # cs) =
     (if c = 44 then [] # split_comma cs
      else (case split_comma cs of [] \<Rightarrow> [[c]] | p # ps \<Rightarrow> (c # p) # ps))"

text \<open>
  \<open>parseInt\<close> on a run of decimal digits (the only strings the pattern captures).
  A natural number below \<open>2^53\<close> is a double, and the result is the number written.
  A number of \<open>2^53\<close> or more is rounded by the source to a double, which is again
  \<open>2^53\<close> or more and may be \<open>Infinity\<close>; the reading \<open>Huge\<close> says that much and
  no more.
\<close>

datatype reading = Exact nat | Huge

definition decimalValue :: "jsstring \<Rightarrow> nat" where
  "decimalValue ds = foldl (\<lambda>acc u. acc * 10 + (u - 48)) 0 ds"

definition parseInt :: "jsstring \<Rightarrow> reading" where
  "parseInt ds =
     (if decimalValue ds < 9007199254740992 then Exact (decimalValue ds) else Huge)"

text \<open>
  \<open>part.match(/^([CR])\s*(\d+)\s*:\s*(\d+)$/)\<close>: the three captured groups, or \<open>None\<close>
  when the pattern fails. White space, digits and the colon are disjoint character
  classes, so the greedy left-to-right reading below is the only way the pattern can
  match.
\<close>

definition match_part :: "jsstring \<Rightarrow> (nat \<times> jsstring \<times> jsstring) option" where
  "match_part part =
     (case part of
        [] \<Rightarrow> None
      | t # r0 \<Rightarrow>
          if t \<noteq> 67 \<and> t \<noteq> 82 then None
          else
            let r1 = dropWhile is_space r0;
                g2 = takeWhile is_digit r1;
                r2 = dropWhile is_space (dropWhile is_digit r1)
            in if g2 = [] then None
               else (case r2 of
                       [] \<Rightarrow> None
                     | k # r3 \<Rightarrow>
                         if k \<noteq> 58 then None
                         else
                           let r4 = dropWhile is_space r3;
                               g3 = takeWhile is_digit r4
                           in if g3 = [] \<or> dropWhile is_digit r4 \<noteq> [] then None
                              else Some (t, g2, g3)))"

text \<open>
  \<open>index < baseCols\<close> on numbers: false when the bound is \<open>NaN\<close>. A reading of
  \<open>2^53\<close> or more is not below a bound of at most \<open>2^53\<close>; against a larger bound
  the comparison is not determined (\<open>None\<close>).
\<close>

fun less_num :: "nat \<Rightarrow> jsnum \<Rightarrow> bool" where
  "less_num i NaN = False"
| "less_num i (Num b) = (real i < b)"

fun less_reading :: "reading \<Rightarrow> jsnum \<Rightarrow> bool option" where
  "less_reading (Exact i) b = Some (less_num i b)"
| "less_reading Huge NaN = Some False"
| "less_reading Huge (Num b) = (if b \<le> 9007199254740992 then Some False else None)"

text \<open>
  \<open>rules.cols[index] = mult\<close>: the updated map, determined when both numbers are exact.
\<close>

fun assign :: "(nat \<rightharpoonup> nat) \<Rightarrow> reading \<Rightarrow> reading \<Rightarrow> (nat \<rightharpoonup> nat) option" where
  "assign m (Exact i) (Exact k) = Some (m(i \<mapsto> k))"
| "assign m (Exact i) Huge = None"
| "assign m Huge k = None"

text \<open>
  The body of \<open>parts.forEach\<close>. \<open>isNaN\<close> of a parsed digit string is never true, the
  parsed index is never negative, and a multiplier of \<open>2^53\<close> or more is positive.
  The result is \<open>None\<close> when the rules that the source builds depend on the exact value
  of a number of \<open>2^53\<close> or more.
\<close>

definition apply_part :: "jsnum \<Rightarrow> jsnum \<Rightarrow> SubdivisionRules \<Rightarrow> jsstring \<Rightarrow> SubdivisionRules option" where
  "apply_part bCols bRows rules part =
     (case match_part part of
        None \<Rightarrow> Some rules
      | Some (type, g2, g3) \<Rightarrow>
          let idx = parseInt g2; mult = parseInt g3
          in if mult = Exact 0 then Some rules
             else (case (if type = 67 then less_reading idx bCols else Some False) of
                     None \<Rightarrow> None
                   | Some True \<Rightarrow>
                       map_option (\<lambda>m. rules\<lparr>cols := m\<rparr>) (assign (cols rules) idx mult)
                   | Some False \<Rightarrow>
                       (case (if type = 82 then less_reading idx bRows else Some False) of
                          None \<Rightarrow> None
                        | Some True \<Rightarrow>
                            map_option (\<lambda>m. rules\<lparr>rows := m\<rparr>) (assign (rows rules) idx mult)
                        | Some False \<Rightarrow> Some rules)))"

definition rule_parts :: "jsstring \<Rightarrow> jsstring list" where
  "rule_parts rulesString =
     filter (\<lambda>s. length s > 0) (map (\<lambda>s. toUpperCase (trim s)) (split_comma rulesString))"

definition no_rules :: SubdivisionRules where
  "no_rules = \<lparr>cols = Map.empty, rows = Map.empty\<rparr>"

definition parseSubdivisionRules :: "jsstring \<Rightarrow> jsnum \<Rightarrow> jsnum \<Rightarrow> SubdivisionRules option" where
  "parseSubdivisionRules rulesString bCols bRows =
     (if rulesString = [] then Some no_rules
      else foldl (\<lambda>acc part. Option.bind acc (\<lambda>rules. apply_part bCols bRows rules part))
             (Some no_rules) (rule_parts rulesString))"


section \<open>Grid generation (src/utils/geometry.ts, generateGrid)\<close>

text \<open>\<open>Math.max(1, isNaN(b) ? 1 : b)\<close>\<close>

definition safeCount :: "jsnum \<Rightarrow> real" where
  "safeCount b = max 1 (case b of NaN \<Rightarrow> 1 | Num v \<Rightarrow> v)"

text \<open>\<open>rules.cols[c] || 1\<close>: an absent entry and the entry 0 both give 1.\<close>

definition multiplier :: "(nat \<rightharpoonup> nat) \<Rightarrow> nat \<Rightarrow> nat" where
  "multiplier m c = (case m c of None \<Rightarrow> 1 | Some k \<Rightarrow> if k = 0 then 1 else k)"

text \<open>
  The counter values of \<open>for (let c = 0; c < bound; c++)\<close> for a finite bound: the
  naturals below it.
\<close>

definition countTo :: "real \<Rightarrow> nat list" where
  "countTo bound = [0 ..< nat \<lceil>bound\<rceil>]"

text \<open>
  One round of the outer loop over the logical divisions of an axis; the state is the
  array of strip widths and the running point count.
\<close>

definition stripStep :: "real \<Rightarrow> real \<Rightarrow> (nat \<rightharpoonup> nat) \<Rightarrow> real list \<times> nat \<Rightarrow> nat \<Rightarrow> real list \<times> nat" where
  "stripStep gridArea safe m st c =
     (let mult = multiplier m c;
          baseStep = gridArea / safe;
          widths = foldl (\<lambda>ws i. ws @ [baseStep / real mult]) (fst st) [0 ..< mult]
      in (widths, snd st + mult))"

text \<open>The strip widths of an axis and its number of points (with the fencepost).\<close>

definition strips :: "real \<Rightarrow> real \<Rightarrow> (nat \<rightharpoonup> nat) \<Rightarrow> real list \<times> nat" where
  "strips gridArea safe m =
     (let st = foldl (stripStep gridArea safe m) ([], 0) (countTo safe)
      in (fst st, snd st + 1))"

text \<open>\<open>xs[i]\<close>: \<open>None\<close> is the \<open>undefined\<close> of a read outside the array.\<close>

definition js_get :: "'a list \<Rightarrow> nat \<Rightarrow> 'a option" where
  "js_get xs i = (if i < length xs then Some (xs ! i) else None)"

text \<open>
  The vertex loops. The state of the inner loop is \<open>(currentX, vertexId, vertices)\<close>,
  that of the outer loop \<open>(currentY, vertexId, vertices)\<close>. Adding \<open>undefined\<close> to a
  number gives \<open>NaN\<close>, which a real coordinate cannot hold: the loops then yield
  \<open>None\<close>. Lemma \<open>generateGrid_defined\<close> shows that this never happens.
\<close>

definition advance :: "real list \<Rightarrow> real \<Rightarrow> nat \<Rightarrow> real option" where
  "advance widths current k =
     (if k > 0 then map_option (\<lambda>w. current + w) (js_get widths (k - 1)) else Some current)"

definition colStep :: "real list \<Rightarrow> real \<Rightarrow> (real \<times> nat \<times> Vertex list) option \<Rightarrow> nat
    \<Rightarrow> (real \<times> nat \<times> Vertex list) option" where
  "colStep colWidths y st c =
     (case st of
        None \<Rightarrow> None
      | Some (currentX, vertexId, vs) \<Rightarrow>
          (case advance colWidths currentX c of
             None \<Rightarrow> None
           | Some x \<Rightarrow>
               Some (if c < length colWidths then x else currentX,
                     vertexId + 1,
                     vs @ [\<lparr>vx = x, vy = y, originalX = x, originalY = y, v_id = vertexId\<rparr>])))"

definition rowStep :: "real list \<Rightarrow> real list \<Rightarrow> nat \<Rightarrow> (real \<times> nat \<times> Vertex list) option \<Rightarrow> nat
    \<Rightarrow> (real \<times> nat \<times> Vertex list) option" where
  "rowStep colWidths rowHeights totalXPoints st r =
     (case st of
        None \<Rightarrow> None
      | Some (currentY, vertexId, vs) \<Rightarrow>
          (case advance rowHeights currentY r of
             None \<Rightarrow> None
           | Some y \<Rightarrow>
               (case foldl (colStep colWidths y) (Some (GRID_MARGIN, vertexId, vs)) [0 ..< totalXPoints] of
                  None \<Rightarrow> None
                | Some (currentX, vertexId', vs') \<Rightarrow>
                    Some (if r < length rowHeights then y else currentY, vertexId', vs'))))"

definition genVertices :: "real list \<Rightarrow> real list \<Rightarrow> nat \<Rightarrow> nat \<Rightarrow> Vertex list option" where
  "genVertices colWidths rowHeights totalXPoints totalYPoints =
     map_option (\<lambda>st. snd (snd st))
       (foldl (rowStep colWidths rowHeights totalXPoints) (Some (GRID_MARGIN, 0, [])) [0 ..< totalYPoints])"

text \<open>The cell loops; the state is \<open>(cellId, cells)\<close>.\<close>

definition cellStep :: "nat \<Rightarrow> nat \<Rightarrow> nat \<times> Cell list \<Rightarrow> nat \<Rightarrow> nat \<times> Cell list" where
  "cellStep totalXPoints r st c =
     (let tl = r * totalXPoints + c;
          tr = r * totalXPoints + c + 1;
          br = (r + 1) * totalXPoints + c + 1;
          bl = (r + 1) * totalXPoints + c
      in (fst st + 1,
          snd st @ [\<lparr>c_id = fst st, v_indices = (tl, tr, br, bl), color = None, isFilled = False\<rparr>]))"

definition genCells :: "nat \<Rightarrow> nat \<Rightarrow> Cell list" where
  "genCells totalXPoints totalYPoints =
     (let actualRows = totalYPoints - 1;
          actualCols = totalXPoints - 1
      in snd (foldl (\<lambda>st r. foldl (cellStep totalXPoints r) st [0 ..< actualCols]) (0, []) [0 ..< actualRows]))"

record Grid =
  g_vertices :: "Vertex list"
  g_cells :: "Cell list"

definition colStrips :: "jsnum \<Rightarrow> SubdivisionRules \<Rightarrow> real list \<times> nat" where
  "colStrips bCols rules = strips (SVG_WIDTH - 2 * GRID_MARGIN) (safeCount bCols) (cols rules)"

definition rowStrips :: "jsnum \<Rightarrow> SubdivisionRules \<Rightarrow> real list \<times> nat" where
  "rowStrips bRows rules = strips (SVG_HEIGHT - 2 * GRID_MARGIN) (safeCount bRows) (rows rules)"

definition generateGrid :: "jsnum \<Rightarrow> jsnum \<Rightarrow> SubdivisionRules \<Rightarrow> Grid option" where
  "generateGrid bCols bRows rules =
     (let colWidths = fst (colStrips bCols rules);
          totalXPoints = snd (colStrips bCols rules);
          rowHeights = fst (rowStrips bRows rules);
          totalYPoints = snd (rowStrips bRows rules)
      in map_option (\<lambda>vs. \<lparr>g_vertices = vs, g_cells = genCells totalXPoints totalYPoints\<rparr>)
           (genVertices colWidths rowHeights totalXPoints totalYPoints))"


section \<open>Geometric queries (src/utils/geometry.ts)\<close>

text \<open>
  The edge test of the ray casting loop. The division is evaluated only when the two
  ends of the edge lie on different sides of the ray, so the divisor is not zero there.
\<close>

definition intersect :: "Point \<Rightarrow> Point \<Rightarrow> Point \<Rightarrow> bool" where
  "intersect point vi vj =
     (let x = px point; y = py point;
          xi = px vi; yi = py vi;
          xj = px vj; yj = py vj
      in ((yi > y) \<noteq> (yj > y)) \<and> (x < (xj - xi) * (y - yi) / (yj - yi) + xi))"

text \<open>
  \<open>for (let i = 0, j = vs.length - 1; i < vs.length; j = i++)\<close>: the loop state is
  \<open>(j, inside)\<close>; both reads stay inside the array.
\<close>

definition polyStep :: "Point \<Rightarrow> Point list \<Rightarrow> nat \<times> bool \<Rightarrow> nat \<Rightarrow> nat \<times> bool" where
  "polyStep point vs st i =
     (i, if intersect point (vs ! i) (vs ! fst st) then \<not> snd st else snd st)"

definition isPointInPolygon :: "Point \<Rightarrow> Point list \<Rightarrow> bool" where
  "isPointInPolygon point vs =
     (if length vs < 3 then False
      else snd (foldl (polyStep point vs) (length vs - 1, False) [0 ..< length vs]))"

text \<open>
  \<open>getCellCenter\<close> reads a field of each \<open>vertices[...]\<close>; on \<open>undefined\<close> that read
  throws a TypeError, the result \<open>None\<close>.
\<close>

definition getCellCenter :: "Cell \<Rightarrow> Vertex list \<Rightarrow> Point option" where
  "getCellCenter cell vs =
     (case v_indices cell of (i0, i1, i2, i3) \<Rightarrow>
        (case (js_get vs i0, js_get vs i1, js_get vs i2, js_get vs i3) of
           (Some v0, Some v1, Some v2, Some v3) \<Rightarrow>
             Some \<lparr>px = (vx v0 + vx v1 + vx v2 + vx v3) / 4,
                   py = (vy v0 + vy v1 + vy v2 + vy v3) / 4\<rparr>
         | _ \<Rightarrow> None))"






















section \<open>Cell painting (src/App.tsx, handleCellClick)\<close>

text \<open>
  The part of the component state that the click handler reads and writes: the history
  hook, the local working copies and the palette colour. \<open>state\<close> of the source is
  \<open>currentState (hist app)\<close>.
\<close>

record App =
  hist :: "EditorState hist"
  localVertices :: "Vertex list"
  localBoundary :: "Point list"
  activeColor :: string

text \<open>
  What a handler does besides updating the state: nothing, an \<open>alert\<close> with its
  message, an uncaught TypeError (a field read on \<open>undefined\<close>), or an uncaught
  RangeError (an array grown beyond the length of any array).
\<close>

datatype effect = Quiet | Alert string | TypeError | RangeError

text \<open>\<open>findIndex\<close>: \<open>None\<close> is the result -1.\<close>

fun findIndex :: "('a \<Rightarrow> bool) \<Rightarrow> 'a list \<Rightarrow> nat option" where
  "findIndex P [] = None"
| "findIndex P (x # xs) = (if P x then Some 0 else map_option Suc (findIndex P xs))"

definition paintCell :: "string \<Rightarrow> Cell \<Rightarrow> Cell" where
  "paintCell active cell =
     (if isFilled cell \<and> color cell = Some active
      then cell\<lparr>isFilled := False, color := None\<rparr>
      else cell\<lparr>isFilled := True, color := Some active\<rparr>)"

definition commitPaint :: "App \<Rightarrow> EditorState \<Rightarrow> nat \<Rightarrow> App" where
  "commitPaint app state cellIndex =
     (let newCells = (cells state)[cellIndex := paintCell (activeColor app) (cells state ! cellIndex)]
      in app\<lparr>hist := pushState (hist app)
                 (state\<lparr>vertices := localVertices app,
                        boundaryPoints := localBoundary app,
                        cells := newCells\<rparr>)\<rparr>)"

definition handleCellClick :: "nat \<Rightarrow> App \<Rightarrow> App \<times> effect" where
  "handleCellClick cid app =
     (case currentState (hist app) of
        None \<Rightarrow> (app, TypeError)
      | Some state \<Rightarrow>
          (case findIndex (\<lambda>c. c_id c = cid) (cells state) of
             None \<Rightarrow> (app, Quiet)
           | Some cellIndex \<Rightarrow>
               if length (boundaryPoints state) \<ge> 3 then
                 (case getCellCenter (cells state ! cellIndex) (localVertices app) of
                    None \<Rightarrow> (app, TypeError)
                  | Some center \<Rightarrow>
                      if \<not> isPointInPolygon center (boundaryPoints state)
                      then (app, Alert ''Cannot paint outside the mask boundary.'')
                      else (commitPaint app state cellIndex, Quiet))
               else (commitPaint app state cellIndex, Quiet)))"

section \<open>Drag controller (MeshCanvas: dragState, pointer handlers)\<close>

datatype target = VertexTarget | BoundaryTarget

datatype axis = AxisX | AxisY

record DragState =
  d_type :: target
  d_id :: nat
  startX :: real
  startY :: real
  initialItemX :: real
  initialItemY :: real
  constraint :: "axis option"

record PointerEvent =
  clientX :: real
  clientY :: real
  altKey :: bool

text \<open>
  The bounding rectangle of the rendered SVG element; its width and height are
  positive for an element that is displayed.
\<close>

record DOMRect =
  r_left :: real
  r_top :: real
  r_width :: real
  r_height :: real

text \<open>A call of \<open>onVertexMove\<close> or \<open>onBoundaryMove\<close>: target, id, x, y, isFinished.\<close>

datatype report = Report target nat real real bool

definition handlePointerDown :: "PointerEvent \<Rightarrow> target \<Rightarrow> nat \<Rightarrow> real \<Rightarrow> real \<Rightarrow> DragState option" where
  "handlePointerDown e type ident currentX currentY =
     Some \<lparr>d_type = type, d_id = ident, startX = clientX e, startY = clientY e,
           initialItemX = currentX, initialItemY = currentY, constraint = None\<rparr>"

text \<open>
  \<open>handlePointerMove\<close>: the new drag state (after the state update it requests) and the
  call it makes, if any. The first argument is \<open>svgRef.current\<close>'s rectangle.
\<close>

definition handlePointerMove :: "DOMRect option \<Rightarrow> DragState option \<Rightarrow> PointerEvent
    \<Rightarrow> DragState option \<times> report option" where
  "handlePointerMove svg dragState e =
     (case dragState of
        None \<Rightarrow> (None, None)
      | Some d \<Rightarrow>
          let dx = clientX e - startX d;
              dy = clientY e - startY d;
              decide = (altKey e \<and> constraint d = None \<and> (\<bar>dx\<bar> > 5 \<or> \<bar>dy\<bar> > 5));
              c = (if decide then Some (if \<bar>dx\<bar> > \<bar>dy\<bar> then AxisX else AxisY) else constraint d);
              d' = (if decide then d\<lparr>constraint := c\<rparr> else d)
          in (case svg of
                None \<Rightarrow> (Some d', None)
              | Some rect \<Rightarrow>
                  let scaleX = SVG_WIDTH / r_width rect;
                      scaleY = SVG_HEIGHT / r_height rect;
                      svgDx = dx * scaleX;
                      svgDy = dy * scaleY;
                      svgDy = (if c = Some AxisX then 0 else svgDy);
                      svgDx = (if c = Some AxisY then 0 else svgDx);
                      newX = max 0 (min SVG_WIDTH (initialItemX d + svgDx));
                      newY = max 0 (min SVG_HEIGHT (initialItemY d + svgDy))
                  in (Some d', Some (Report (d_type d) (d_id d) newX newY False))))"

text \<open>\<open>vertices.find(v => v.id === id)\<close>\<close>

definition findVertex :: "Vertex list \<Rightarrow> nat \<Rightarrow> Vertex option" where
  "findVertex vs ident = find (\<lambda>v. v_id v = ident) vs"

definition handlePointerUp :: "Vertex list \<Rightarrow> Point list \<Rightarrow> DragState option
    \<Rightarrow> DragState option \<times> report option" where
  "handlePointerUp vs bps dragState =
     (case dragState of
        None \<Rightarrow> (None, None)
      | Some d \<Rightarrow>
          (case d_type d of
             VertexTarget \<Rightarrow>
               (None, map_option (\<lambda>v. Report VertexTarget (d_id d) (vx v) (vy v) True)
                        (findVertex vs (d_id d)))
           | BoundaryTarget \<Rightarrow>
               (None, map_option (\<lambda>p. Report BoundaryTarget (d_id d) (px p) (py p) True)
                        (js_get bps (d_id d)))))"

text \<open>
  The working copies that \<open>onVertexDrag\<close> and \<open>onBoundaryDrag\<close> of App.tsx write on a
  report and that come back to the canvas as its \<open>vertices\<close> and \<open>boundaryPoints\<close>.
\<close>

definition applyReport :: "report \<Rightarrow> Vertex list \<times> Point list \<Rightarrow> Vertex list \<times> Point list" where
  "applyReport r w =
     (case r of
        Report VertexTarget ident x y fin \<Rightarrow>
          (map (\<lambda>v. if v_id v = ident then v\<lparr>vx := x, vy := y\<rparr> else v) (fst w), snd w)
      | Report BoundaryTarget ident x y fin \<Rightarrow>
          (fst w, if ident < length (snd w) then (snd w)[ident := \<lparr>px = x, py = y\<rparr>] else snd w))"

text \<open>
  One pointer interaction: the canvas with its drag state, the working copies and the
  reports made so far, driven by pointer-move and pointer-up (or pointer-leave) events.
\<close>

record Canvas =
  dragState :: "DragState option"
  working :: "Vertex list \<times> Point list"
  reported :: "report list"

datatype pointer = PointerMove PointerEvent | PointerUp

definition deliver :: "Canvas \<Rightarrow> DragState option \<times> report option \<Rightarrow> Canvas" where
  "deliver cv out =
     (case snd out of
        None \<Rightarrow> cv\<lparr>dragState := fst out\<rparr>
      | Some r \<Rightarrow> \<lparr>dragState = fst out, working = applyReport r (working cv),
                    reported = reported cv @ [r]\<rparr>)"

fun canvasStep :: "DOMRect option \<Rightarrow> Canvas \<Rightarrow> pointer \<Rightarrow> Canvas" where
  "canvasStep svg cv (PointerMove e) = deliver cv (handlePointerMove svg (dragState cv) e)"
| "canvasStep svg cv PointerUp =
     deliver cv (handlePointerUp (fst (working cv)) (snd (working cv)) (dragState cv))"

definition canvasRun :: "DOMRect option \<Rightarrow> Canvas \<Rightarrow> pointer list \<Rightarrow> Canvas" where
  "canvasRun svg cv evs = foldl (canvasStep svg) cv evs"


section \<open>Reference readings used in the statements\<close>

text \<open>
  The pattern \<open>^([CR])\s*(\d+)\s*:\s*(\d+)$\<close> read as a grammar: a token matches with
  the groups \<open>t\<close>, \<open>g2\<close>, \<open>g3\<close> when it is the letter, white space, a non-empty run
  of digits, white space, a colon, white space and a non-empty run of digits.
\<close>

definition spec_pattern :: "jsstring \<Rightarrow> nat \<Rightarrow> jsstring \<Rightarrow> jsstring \<Rightarrow> bool" where
  "spec_pattern part t g2 g3 =
     ((t = 67 \<or> t = 82) \<and> g2 \<noteq> [] \<and> g3 \<noteq> [] \<and>
      list_all is_digit g2 \<and> list_all is_digit g3 \<and>
      (\<exists>s1 s2 s3. list_all is_space s1 \<and> list_all is_space s2 \<and> list_all is_space s3 \<and>
         part = t # s1 @ g2 @ s2 @ 58 # s3 @ g3))"

text \<open>
  The rule grammar as the specification words it: what a token contributes (axis letter,
  index, multiplier), or \<open>None\<close> when the token is dropped because it does not match
  the pattern, its multiplier is not positive, or its index is outside the range of its
  axis. The numbers are the ones written, of any size. \<open>spec_entries\<close> lists the
  contributions to one axis in the order of the tokens.
\<close>

definition spec_token :: "jsnum \<Rightarrow> jsnum \<Rightarrow> jsstring \<Rightarrow> (nat \<times> nat \<times> nat) option" where
  "spec_token bCols bRows part =
     (case match_part part of
        None \<Rightarrow> None
      | Some (t, g2, g3) \<Rightarrow>
          if decimalValue g3 \<le> 0 then None
          else if \<not> less_num (decimalValue g2) (if t = 67 then bCols else bRows) then None
          else Some (t, decimalValue g2, decimalValue g3))"

definition spec_entries :: "nat \<Rightarrow> jsnum \<Rightarrow> jsnum \<Rightarrow> jsstring list \<Rightarrow> (nat \<times> nat) list" where
  "spec_entries a bCols bRows parts =
     map snd (filter (\<lambda>e. fst e = a) (List.map_filter (spec_token bCols bRows) parts))"

text \<open>A token whose numbers, if it has any, are below \<open>2^53\<close>.\<close>

definition smallNumbers :: "jsstring \<Rightarrow> bool" where
  "smallNumbers part =
     (case match_part part of
        None \<Rightarrow> True
      | Some (t, g2, g3) \<Rightarrow>
          decimalValue g2 < 9007199254740992 \<and> decimalValue g3 < 9007199254740992)"

text \<open>\<open>pieces.join(',')\<close>, the inverse of splitting on commas.\<close>

fun joinComma :: "jsstring list \<Rightarrow> jsstring" where
  "joinComma [] = []"
| "joinComma [p] = p"
| "joinComma (p # q # ps) = p @ 44 # joinComma (q # ps)"

text \<open>The code units that are white space, one by one.\<close>

definition whiteSpaceUnits :: "nat list" where
  "whiteSpaceUnits =
     [9, 10, 11, 12, 13, 32, 160, 5760, 8192, 8193, 8194, 8195, 8196, 8197, 8198, 8199, 8200,
      8201, 8202, 8232, 8233, 8239, 8287, 12288, 65279]"

text \<open>
  The crossing-number reading of the polygon test. The ray from the point \<open>p\<close> to the
  right crosses the edge from \<open>a\<close> to \<open>b\<close> when some point of the edge, other than
  its upper end, lies at the height of \<open>p\<close> and strictly to its right. The edges of
  the closed loop pair each point with its predecessor and the first point with the
  last; \<open>crossings\<close> counts the edges that the ray crosses.
\<close>

definition closedEdges :: "Point list \<Rightarrow> (Point \<times> Point) list" where
  "closedEdges vs = zip vs (last vs # butlast vs)"

definition crossesRay :: "Point \<Rightarrow> Point \<Rightarrow> Point \<Rightarrow> bool" where
  "crossesRay p a b =
     (\<exists>t. 0 \<le> t \<and> t \<le> 1 \<and>
          py a + t * (py b - py a) = py p \<and>
          py p < max (py a) (py b) \<and>
          px p < px a + t * (px b - px a))"

definition crossings :: "Point \<Rightarrow> Point list \<Rightarrow> nat" where
  "crossings point vs =
     length (filter (\<lambda>e. crossesRay point (fst e) (snd e)) (closedEdges vs))"

text \<open>A triangle with a slanted side and an L-shaped (concave) polygon.\<close>

definition slantTriangle :: "Point list" where
  "slantTriangle = [\<lparr>px = 0, py = 0\<rparr>, \<lparr>px = 10, py = 0\<rparr>, \<lparr>px = 0, py = 10\<rparr>]"

definition ellPolygon :: "Point list" where
  "ellPolygon =
     [\<lparr>px = 0, py = 0\<rparr>, \<lparr>px = 10, py = 0\<rparr>, \<lparr>px = 10, py = 4\<rparr>,
      \<lparr>px = 4, py = 4\<rparr>, \<lparr>px = 4, py = 10\<rparr>, \<lparr>px = 0, py = 10\<rparr>]"

text \<open>The index \<open>j\<close> that accompanies \<open>i\<close> in the loop of \<open>isPointInPolygon\<close>.\<close>

definition prevIndex :: "nat \<Rightarrow> nat \<Rightarrow> nat" where
  "prevIndex n i = (if i = 0 then n - 1 else i - 1)"

text \<open>
  The drag of the specification's example: a vertex \<open>k\<close> resting at (100,100) is
  grabbed with the pointer at (100,100). \<open>exampleY\<close> is the vertical position that a
  pointer at height \<open>cy\<close> gives it on a canvas rendered with rectangle \<open>rect\<close>.
\<close>

definition dragStart :: "nat \<Rightarrow> DragState" where
  "dragStart k = \<lparr>d_type = VertexTarget, d_id = k, startX = 100, startY = 100,
      initialItemX = 100, initialItemY = 100, constraint = None\<rparr>"

definition dragExample :: "nat \<Rightarrow> Canvas" where
  "dragExample k =
     \<lparr>dragState = handlePointerDown \<lparr>clientX = 100, clientY = 100, altKey = True\<rparr> VertexTarget k 100 100,
      working = ([\<lparr>vx = 100, vy = 100, originalX = 100, originalY = 100, v_id = k\<rparr>], []),
      reported = []\<rparr>"

definition exampleY :: "DOMRect \<Rightarrow> real \<Rightarrow> real" where
  "exampleY rect cy = max 0 (min SVG_HEIGHT (100 + (cy - 100) * (SVG_HEIGHT / r_height rect)))"

text \<open>
  A small editor used to exercise the click handler: one cell over four vertices that
  rest inside the square mask (0,0), (10,0), (10,10), (0,10) and have been dragged
  20 units to the right and down, out of the mask.
\<close>

definition maskSquare :: "Point list" where
  "maskSquare = [\<lparr>px = 0, py = 0\<rparr>, \<lparr>px = 10, py = 0\<rparr>, \<lparr>px = 10, py = 10\<rparr>, \<lparr>px = 0, py = 10\<rparr>]"

definition draggedSquare :: "Vertex list" where
  "draggedSquare =
     [\<lparr>vx = 22, vy = 22, originalX = 2, originalY = 2, v_id = 0\<rparr>,
      \<lparr>vx = 28, vy = 22, originalX = 8, originalY = 2, v_id = 1\<rparr>,
      \<lparr>vx = 28, vy = 28, originalX = 8, originalY = 8, v_id = 2\<rparr>,
      \<lparr>vx = 22, vy = 28, originalX = 2, originalY = 8, v_id = 3\<rparr>]"

definition oneCell :: Cell where
  "oneCell = \<lparr>c_id = 0, v_indices = (0, 1, 2, 3), color = None, isFilled = False\<rparr>"

definition maskedState :: EditorState where
  "maskedState =
     \<lparr>vertices = draggedSquare, cells = [oneCell], boundaryPoints = maskSquare,
      gridConfig = \<lparr>baseCols = Num 1, baseRows = Num 1, ruleString = []\<rparr>\<rparr>"

definition maskedApp :: App where
  "maskedApp =
     \<lparr>hist = useHistory maskedState, localVertices = draggedSquare,
      localBoundary = maskSquare, activeColor = ''#888888''\<rparr>"

text \<open>
  The point count of an axis as the specification words it: the sum of the multipliers
  of the divisions \<open>0 \<le> c < n\<close>, an absent multiplier counting as 1, plus one. The
  multipliers of a rule set are positive; \<open>positiveUpTo\<close> says so for the divisions
  that the grid has.
\<close>

definition spec_multiplier :: "(nat \<rightharpoonup> nat) \<Rightarrow> nat \<Rightarrow> nat" where
  "spec_multiplier m c = (case m c of None \<Rightarrow> 1 | Some k \<Rightarrow> k)"

definition spec_totalPoints :: "(nat \<rightharpoonup> nat) \<Rightarrow> nat \<Rightarrow> nat" where
  "spec_totalPoints m n = sum_list (map (spec_multiplier m) [0 ..< n]) + 1"

definition positiveUpTo :: "(nat \<rightharpoonup> nat) \<Rightarrow> nat \<Rightarrow> bool" where
  "positiveUpTo m n = list_all (\<lambda>c. m c \<noteq> Some 0) [0 ..< n]"

text \<open>The four corner ids of the cell in row \<open>r\<close> and column \<open>c\<close>, and a cell as generated.\<close>

definition cornerIds :: "nat \<Rightarrow> nat \<Rightarrow> nat \<Rightarrow> nat \<times> nat \<times> nat \<times> nat" where
  "cornerIds tx r c = (r * tx + c, r * tx + c + 1, (r + 1) * tx + c + 1, (r + 1) * tx + c)"

definition freshCell :: "nat \<Rightarrow> nat \<Rightarrow> nat \<Rightarrow> Cell \<Rightarrow> bool" where
  "freshCell tx r c cell =
     (v_indices cell = cornerIds tx r c \<and> color cell = None \<and> \<not> isFilled cell)"

text \<open>All four corner ids of a cell are positions of a vertex array of length \<open>n\<close>.\<close>

definition cornersBelow :: "nat \<Rightarrow> Cell \<Rightarrow> bool" where
  "cornersBelow n cell =
     (case v_indices cell of (a, b, c, d) \<Rightarrow> a < n \<and> b < n \<and> c < n \<and> d < n)"

text \<open>
  The grid of two base columns and one base row with the second column split in two:
  the value of \<open>generateGrid\<close> at \<open>(2, NaN, {cols: {1: 2}, rows: {}})\<close>.
\<close>

definition splitRules :: SubdivisionRules where
  "splitRules = \<lparr>cols = [1 \<mapsto> 2], rows = Map.empty\<rparr>"

definition splitGrid :: Grid where
  "splitGrid =
     \<lparr>g_vertices =
        [\<lparr>vx = 50, vy = 50, originalX = 50, originalY = 50, v_id = 0\<rparr>,
         \<lparr>vx = 500, vy = 50, originalX = 500, originalY = 50, v_id = 1\<rparr>,
         \<lparr>vx = 725, vy = 50, originalX = 725, originalY = 50, v_id = 2\<rparr>,
         \<lparr>vx = 950, vy = 50, originalX = 950, originalY = 50, v_id = 3\<rparr>,
         \<lparr>vx = 50, vy = 1950, originalX = 50, originalY = 1950, v_id = 4\<rparr>,
         \<lparr>vx = 500, vy = 1950, originalX = 500, originalY = 1950, v_id = 5\<rparr>,
         \<lparr>vx = 725, vy = 1950, originalX = 725, originalY = 1950, v_id = 6\<rparr>,
         \<lparr>vx = 950, vy = 1950, originalX = 950, originalY = 1950, v_id = 7\<rparr>],
      g_cells =
        [\<lparr>c_id = 0, v_indices = (0, 1, 5, 4), color = None, isFilled = False\<rparr>,
         \<lparr>c_id = 1, v_indices = (1, 2, 6, 5), color = None, isFilled = False\<rparr>,
         \<lparr>c_id = 2, v_indices = (2, 3, 7, 6), color = None, isFilled = False\<rparr>]\<rparr>"

section \<open>Editor actions (src/App.tsx)\<close>

text \<open>
  The initial editor state: ten base columns, the row count that keeps the cells about
  square (\<open>Math.round\<close> is the floor of the value plus one half), and the rule string
  \<open>C1:4,R3:2\<close>.
\<close>

definition gridRatio :: real where
  "gridRatio = (SVG_HEIGHT - 2 * GRID_MARGIN) / (SVG_WIDTH - 2 * GRID_MARGIN)"

definition INITIAL_CONFIG :: GridConfig where
  "INITIAL_CONFIG =
     \<lparr>baseCols = Num 10, baseRows = Num (of_int \<lfloor>10 * gridRatio + 1 / 2\<rfloor>),
      ruleString = js ''C1:4,R3:2''\<rparr>"

text \<open>
  \<open>generateGrid\<close> always returns a grid (lemma \<open>generateGrid_defined\<close>); where its
  result is used, the case \<open>None\<close> is never taken and stands for an empty grid. The
  rules of the initial rule string are determined as well (lemma
  \<open>initialRules_defined\<close>), and there the case \<open>None\<close> stands for no rules.
\<close>

definition definedGrid :: "Grid option \<Rightarrow> Grid" where
  "definedGrid r = (case r of None \<Rightarrow> \<lparr>g_vertices = [], g_cells = []\<rparr> | Some g \<Rightarrow> g)"

definition definedRules :: "SubdivisionRules option \<Rightarrow> SubdivisionRules" where
  "definedRules r = (case r of None \<Rightarrow> no_rules | Some rules \<Rightarrow> rules)"

definition INITIAL_STATE :: EditorState where
  "INITIAL_STATE =
     (let initialRules = definedRules (parseSubdivisionRules (ruleString INITIAL_CONFIG)
                           (baseCols INITIAL_CONFIG) (baseRows INITIAL_CONFIG));
          initialGrid = definedGrid (generateGrid (baseCols INITIAL_CONFIG) (baseRows INITIAL_CONFIG)
                           initialRules)
      in \<lparr>vertices = g_vertices initialGrid, cells = g_cells initialGrid,
          boundaryPoints = [], gridConfig = INITIAL_CONFIG\<rparr>)"

definition initialApp :: App where
  "initialApp =
     \<lparr>hist = useHistory INITIAL_STATE, localVertices = vertices INITIAL_STATE,
      localBoundary = boundaryPoints INITIAL_STATE, activeColor = ''#888888''\<rparr>"

text \<open>
  \<open>handleRegenerateGrid\<close>; its first argument is the grid configuration held by the
  side bar at the time of the call. When the rules are not determined
  (\<open>parseSubdivisionRules\<close> gives \<open>None\<close>), a row or column of the grid has a
  multiplier of \<open>2^53\<close> or more, or the grid has more than \<open>2^53\<close> rows or
  columns: \<open>generateGrid\<close> then has to push \<open>2^53\<close> or more strips on an array,
  which ends in a RangeError at the latest when the array is full, and nothing is
  pushed on the history.
\<close>

definition handleRegenerateGrid :: "GridConfig \<Rightarrow> App \<Rightarrow> App \<times> effect" where
  "handleRegenerateGrid config app =
     (let safeCols = safeCount (baseCols config);
          safeRows = safeCount (baseRows config);
          safeConfig = config\<lparr>baseCols := Num safeCols, baseRows := Num safeRows\<rparr>
      in case parseSubdivisionRules (ruleString safeConfig) (Num safeCols) (Num safeRows) of
           None \<Rightarrow> (app, RangeError)
         | Some rules \<Rightarrow>
             (let grid = definedGrid (generateGrid (Num safeCols) (Num safeRows) rules)
              in case currentState (hist app) of
                   None \<Rightarrow> (app, TypeError)
                 | Some state \<Rightarrow>
                     (app\<lparr>hist := pushState (hist app)
                             \<lparr>vertices = g_vertices grid, cells = g_cells grid,
                              boundaryPoints = boundaryPoints state, gridConfig = safeConfig\<rparr>\<rparr>,
                      Quiet)))"

text \<open>
  The effect that follows a change of the current snapshot: the working copies are
  reset from it.
\<close>

definition syncLocal :: "App \<Rightarrow> App" where
  "syncLocal app =
     (case currentState (hist app) of
        None \<Rightarrow> app
      | Some state \<Rightarrow> app\<lparr>localVertices := vertices state, localBoundary := boundaryPoints state\<rparr>)"

datatype action =
    CellClick nat
  | SetActiveColor string
  | RegenerateGrid GridConfig
  | HistoryUndo
  | HistoryRedo

fun appStep :: "App \<Rightarrow> action \<Rightarrow> App" where
  "appStep app (CellClick cid) = syncLocal (fst (handleCellClick cid app))"
| "appStep app (SetActiveColor c) = app\<lparr>activeColor := c\<rparr>"
| "appStep app (RegenerateGrid config) = syncLocal (fst (handleRegenerateGrid config app))"
| "appStep app HistoryUndo = syncLocal (app\<lparr>hist := undo (hist app)\<rparr>)"
| "appStep app HistoryRedo = syncLocal (app\<lparr>hist := redo (hist app)\<rparr>)"

definition appRun :: "App \<Rightarrow> action list \<Rightarrow> App" where
  "appRun app acts = foldl appStep app acts"

text \<open>
  The invariant of the cells: a cell that is not filled has no colour, for a cell list
  and for every snapshot of a history.
\<close>

definition cellsClean :: "Cell list \<Rightarrow> bool" where
  "cellsClean cs = list_all (\<lambda>c. isFilled c \<or> color c = None) cs"

definition histClean :: "EditorState hist \<Rightarrow> bool" where
  "histClean h = list_all (\<lambda>st. cellsClean (cells st)) (history h)"

text \<open>An editor without a mask over the single cell of the small example.\<close>

definition plainApp :: App where
  "plainApp =
     \<lparr>hist = useHistory (maskedState\<lparr>boundaryPoints := []\<rparr>), localVertices = draggedSquare,
      localBoundary = [], activeColor = ''#888888''\<rparr>"



section \<open>Properties of the history store\<close>

lemma pushAll_snoc: "pushAll h (xs @ [x]) = pushState (pushAll h xs) x"
  by (simp add: pushAll_def)

text \<open>Below the capacity every push appends and the index follows the last snapshot.\<close>

lemma pushAll_below_capacity:
  "length xs \<le> 49 \<Longrightarrow>
     history (pushAll (useHistory a) xs) = a # xs \<and>
     index (pushAll (useHistory a) xs) = int (length xs)"
proof (induction xs rule: rev_induct)
  case Nil
  then show ?case by (simp add: pushAll_def useHistory_def)
next
  case (snoc x xs)
  then show ?case
    by (simp add: pushAll_snoc pushState_def slice0_def Let_def shift_def)
qed

text \<open>
  The push that first evicts: the array keeps 50 snapshots, the index becomes 50, one
  past the last position.
\<close>

lemma pushAll_at_capacity:
  assumes "length xs = 49"
  shows "history (pushAll (useHistory a) (xs @ [x])) = xs @ [x]"
    and "index (pushAll (useHistory a) (xs @ [x])) = 50"
    and "currentState (pushAll (useHistory a) (xs @ [x])) = None"
proof -
  have h: "history (pushAll (useHistory a) xs) = a # xs"
    and i: "index (pushAll (useHistory a) xs) = 49"
    using assms pushAll_below_capacity [of xs a] by simp_all
  show "history (pushAll (useHistory a) (xs @ [x])) = xs @ [x]"
    using h i assms by (simp add: pushAll_snoc pushState_def slice0_def Let_def shift_def)
  show "index (pushAll (useHistory a) (xs @ [x])) = 50"
    using h i assms by (simp add: pushAll_snoc pushState_def slice0_def Let_def shift_def)
  show "currentState (pushAll (useHistory a) (xs @ [x])) = None"
    using h i assms
    by (simp add: pushAll_snoc pushState_def slice0_def Let_def shift_def currentState_def)
qed

text \<open>
  C1. The specification asks that the index always addresses an existing snapshot. Starting from
  the initial snapshot 0 and pushing the snapshots 1 to 50, the store holds the 50
  snapshots 1 to 50 and the index is 50, so \<open>history[index]\<close> is \<open>undefined\<close>. After 52
  pushes the store holds the 50 snapshots 3 to 52 and the index is still 50: the cap of
  the index (50) is one more than the last position of a full array (49).
\<close>

theorem pushState_index_past_end:
  "(let h = pushAll (useHistory (0::nat)) [1 ..< 51]
    in history h = [1 ..< 51] \<and> index h = 50 \<and> length (history h) = 50 \<and>
       currentState h = None) \<and>
   (let h = pushAll (useHistory (0::nat)) [1 ..< 53]
    in history h = [3 ..< 53] \<and> index h = 50 \<and> length (history h) = 50 \<and>
       currentState h = None)"
  by code_simp

lemma navStep_history: "history (navStep h n) = history h"
  by (cases n) (simp_all add: undo_def redo_def)

lemma navAll_history: "history (navAll h ns) = history h"
  unfolding navAll_def by (induction ns arbitrary: h) (simp_all add: navStep_history)

lemma navStep_index_valid:
  assumes "0 \<le> index h" and "index h < int (length (history h))"
  shows "0 \<le> index (navStep h n) \<and> index (navStep h n) < int (length (history h))"
  using assms by (cases n) (auto simp: undo_def redo_def)

lemma navAll_index_valid:
  "0 \<le> index h \<Longrightarrow> index h < int (length (history h)) \<Longrightarrow>
     0 \<le> index (navAll h ns) \<and> index (navAll h ns) < int (length (history h))"
proof (induction ns arbitrary: h)
  case Nil
  then show ?case by (simp add: navAll_def)
next
  case (Cons n ns)
  have step: "0 \<le> index (navStep h n) \<and> index (navStep h n) < int (length (history (navStep h n)))"
    using navStep_index_valid [OF Cons.prems] by (simp add: navStep_history)
  have "0 \<le> index (navAll (navStep h n) ns) \<and>
        index (navAll (navStep h n) ns) < int (length (history (navStep h n)))"
    using Cons.IH step by blast
  then show ?case by (simp add: navAll_def navStep_history)
qed

lemma navAll_current_in_history:
  assumes "0 \<le> index h" and "index h < int (length (history h))"
  shows "\<exists>s. currentState (navAll h ns) = Some s \<and> s \<in> set (history h)"
proof -
  have v: "0 \<le> index (navAll h ns) \<and> index (navAll h ns) < int (length (history h))"
    using navAll_index_valid [OF assms] .
  then have "nat (index (navAll h ns)) < length (history h)" by linarith
  then have "history h ! nat (index (navAll h ns)) \<in> set (history h)" by simp
  then show ?thesis using v by (simp add: currentState_def navAll_history)
qed

text \<open>What a push keeps: the snapshots up to the current index, then the new one.\<close>

lemma pushState_history:
  assumes "0 \<le> index h"
  shows "history (pushState h x) =
     (let kept = take (nat (index h) + 1) (history h) @ [x]
      in if length kept > 50 then tl kept else kept)"
proof -
  have "nat (index h + 1) = nat (index h) + 1" using assms by simp
  then show ?thesis using assms by (simp add: pushState_def slice0_def shift_def Let_def)
qed

lemma pushState_below_capacity:
  assumes "0 \<le> index h" and "index h < int (length (history h))" and "index h < 49"
  shows "history (pushState h x) = take (nat (index h) + 1) (history h) @ [x]"
    and "index (pushState h x) = index h + 1"
    and "currentState (pushState h x) = Some x"
    and "\<not> canRedo (pushState h x)"
    and "redo (pushState h x) = pushState h x"
proof -
  have len: "length (take (nat (index h) + 1) (history h)) = nat (index h) + 1"
    using assms(1,2) by simp
  have small: "\<not> length (take (nat (index h) + 1) (history h) @ [x]) > 50"
    using assms(1,3) len by simp
  show h: "history (pushState h x) = take (nat (index h) + 1) (history h) @ [x]"
    unfolding pushState_history [OF assms(1), of x] Let_def using small by (simp only: if_False)
  show i: "index (pushState h x) = index h + 1"
    using assms(3) by (simp add: pushState_def Let_def)
  have last: "int (length (history (pushState h x))) = index h + 2"
    using assms(1) len by (simp add: h)
  have n: "nat (index h + 1) = length (take (nat (index h) + 1) (history h))"
    using assms(1) len by simp
  have "(take (nat (index h) + 1) (history h) @ [x]) ! nat (index h + 1) = x"
    unfolding n by (rule nth_append_length)
  then show "currentState (pushState h x) = Some x"
    using assms(1) last by (simp add: currentState_def i h)
  show "\<not> canRedo (pushState h x)" using last by (simp add: canRedo_def i)
  show "redo (pushState h x) = pushState h x" using last by (simp add: redo_def i)
qed

lemma pushState_then_nav:
  assumes "0 \<le> index h" and "index h < int (length (history h))" and "index h < 49"
  shows "history (navAll (pushState h x) ns) = take (nat (index h) + 1) (history h) @ [x] \<and>
     (\<exists>s. currentState (navAll (pushState h x) ns) = Some s \<and>
          s \<in> set (take (nat (index h) + 1) (history h)) \<union> {x})"
proof -
  have h: "history (pushState h x) = take (nat (index h) + 1) (history h) @ [x]"
    and i: "index (pushState h x) = index h + 1"
    using pushState_below_capacity [OF assms] by simp_all
  have "0 \<le> index (pushState h x)" "index (pushState h x) < int (length (history (pushState h x)))"
    using assms(1,2) by (simp_all add: h i)
  then obtain s where "currentState (navAll (pushState h x) ns) = Some s"
    "s \<in> set (history (pushState h x))"
    using navAll_current_in_history by blast
  then show ?thesis by (auto simp: navAll_history h)
qed

lemma undo_reading:
  "history (undo h) = history h \<and> index (undo h) = max 0 (index h - 1) \<and>
   (0 < index h \<and> index h < int (length (history h)) \<longrightarrow>
      canRedo (undo h) \<and> currentState (undo h) = Some (history h ! (nat (index h) - 1)))"
proof -
  have "0 < index h \<Longrightarrow> nat (index h - 1) = nat (index h) - 1" by simp
  then show ?thesis by (auto simp: undo_def canRedo_def currentState_def)
qed

text \<open>
  C2. A push keeps the snapshots up to the current index, appends the new one and
  drops the oldest when more than 50 are left, so every snapshot after the current
  index (the redo branch) is discarded. Below the capacity the new snapshot is
  current, redo is not possible and changes nothing, and no run of undo and redo
  steps changes the array or makes anything current but a kept snapshot or the new
  one. Undo leaves the array and steps the index back. In the example, from the
  initial snapshot \<open>a\<close>: after push \<open>b\<close>, push \<open>c\<close> and undo the current snapshot is
  \<open>b\<close> and redo is possible; a push of \<open>d\<close> then leaves \<open>[a, b, d]\<close> with \<open>d\<close>
  current, and \<open>c\<close> is gone.
\<close>

theorem push_after_undo_discards_redo_branch:
  "(0 \<le> index h \<longrightarrow>
      history (pushState h x) =
        (let kept = take (nat (index h) + 1) (history h) @ [x]
         in if length kept > 50 then tl kept else kept)) \<and>
   (0 \<le> index h \<and> index h < int (length (history h)) \<and> index h < 49 \<longrightarrow>
      history (pushState h x) = take (nat (index h) + 1) (history h) @ [x] \<and>
      index (pushState h x) = index h + 1 \<and>
      currentState (pushState h x) = Some x \<and>
      \<not> canRedo (pushState h x) \<and>
      redo (pushState h x) = pushState h x \<and>
      (\<forall>ns. history (navAll (pushState h x) ns) = take (nat (index h) + 1) (history h) @ [x] \<and>
            (\<exists>s. currentState (navAll (pushState h x) ns) = Some s \<and>
                 s \<in> set (take (nat (index h) + 1) (history h)) \<union> {x}))) \<and>
   history (undo h) = history h \<and> index (undo h) = max 0 (index h - 1) \<and>
   (0 < index h \<and> index h < int (length (history h)) \<longrightarrow>
      canRedo (undo h) \<and> currentState (undo h) = Some (history h ! (nat (index h) - 1))) \<and>
   (let h3 = undo (pushState (pushState (useHistory a) b) c);
        h4 = pushState h3 d
    in history h3 = [a, b, c] \<and> currentState h3 = Some b \<and> canRedo h3 \<and>
       history h4 = [a, b, d] \<and> currentState h4 = Some d \<and> \<not> canRedo h4 \<and>
       redo h4 = h4 \<and>
       (\<forall>ns. history (navAll h4 ns) = [a, b, d] \<and>
             currentState (navAll h4 ns) \<in> {Some a, Some b, Some d}))"
proof -
  define h4 where "h4 = pushState (undo (pushState (pushState (useHistory a) b) c)) d"
  have h4: "history h4 = [a, b, d]" "index h4 = 2"
    by (simp_all add: h4_def useHistory_def pushState_def undo_def slice0_def shift_def)
  have nav: "history (navAll h4 ns) = [a, b, d] \<and>
             currentState (navAll h4 ns) \<in> {Some a, Some b, Some d}" for ns
  proof -
    obtain s where "currentState (navAll h4 ns) = Some s" "s \<in> set (history h4)"
      using navAll_current_in_history [of h4 ns] h4 by auto
    then show ?thesis using h4 by (auto simp: navAll_history)
  qed
  have rest: "(let h3 = undo (pushState (pushState (useHistory a) b) c);
        h4 = pushState h3 d
    in history h3 = [a, b, c] \<and> currentState h3 = Some b \<and> canRedo h3 \<and>
       history h4 = [a, b, d] \<and> currentState h4 = Some d \<and> \<not> canRedo h4 \<and>
       redo h4 = h4)"
    by (simp add: Let_def useHistory_def pushState_def undo_def redo_def slice0_def
        currentState_def canRedo_def shift_def)
  have example: "(let h3 = undo (pushState (pushState (useHistory a) b) c);
        h4 = pushState h3 d
    in history h3 = [a, b, c] \<and> currentState h3 = Some b \<and> canRedo h3 \<and>
       history h4 = [a, b, d] \<and> currentState h4 = Some d \<and> \<not> canRedo h4 \<and>
       redo h4 = h4 \<and>
       (\<forall>ns. history (navAll h4 ns) = [a, b, d] \<and>
             currentState (navAll h4 ns) \<in> {Some a, Some b, Some d}))"
    using rest nav unfolding Let_def h4_def by blast
  have general: "0 \<le> index h \<longrightarrow>
      history (pushState h x) =
        (let kept = take (nat (index h) + 1) (history h) @ [x]
         in if length kept > 50 then tl kept else kept)"
    using pushState_history [of h x] by blast
  have below: "0 \<le> index h \<and> index h < int (length (history h)) \<and> index h < 49 \<longrightarrow>
      history (pushState h x) = take (nat (index h) + 1) (history h) @ [x] \<and>
      index (pushState h x) = index h + 1 \<and>
      currentState (pushState h x) = Some x \<and>
      \<not> canRedo (pushState h x) \<and>
      redo (pushState h x) = pushState h x \<and>
      (\<forall>ns. history (navAll (pushState h x) ns) = take (nat (index h) + 1) (history h) @ [x] \<and>
            (\<exists>s. currentState (navAll (pushState h x) ns) = Some s \<and>
                 s \<in> set (take (nat (index h) + 1) (history h)) \<union> {x}))"
    using pushState_below_capacity [of h x] pushState_then_nav [of h x] by blast
  show ?thesis using general below undo_reading [of h] example by blast
qed

text \<open>
  The theorem on a longer redo branch: after the pushes 1, 2, 3 onto 0 and two undos,
  the index is 1; the push of 9 leaves \<open>[0, 1, 9]\<close>, and undo, undo, redo, redo, redo
  ends at 9 again, never at 2 or 3.
\<close>

theorem push_after_undo_discards_redo_branch_witness:
  "history (undo (undo (pushAll (useHistory (0::nat)) [1, 2, 3]))) = [0, 1, 2, 3] \<and>
   index (undo (undo (pushAll (useHistory (0::nat)) [1, 2, 3]))) = 1 \<and>
   currentState (undo (undo (pushAll (useHistory (0::nat)) [1, 2, 3]))) = Some 1 \<and>
   canRedo (undo (undo (pushAll (useHistory (0::nat)) [1, 2, 3]))) \<and>
   history (pushState (undo (undo (pushAll (useHistory (0::nat)) [1, 2, 3]))) 9) = [0, 1, 9] \<and>
   currentState (pushState (undo (undo (pushAll (useHistory (0::nat)) [1, 2, 3]))) 9) = Some 9 \<and>
   history (navAll (pushState (undo (undo (pushAll (useHistory (0::nat)) [1, 2, 3]))) 9)
              [Undo, Undo, Redo, Redo, Redo]) = [0, 1, 9]"
proof -
  define h1 where "h1 = undo (pushAll (useHistory (0::nat)) [1, 2, 3])"
  define h0 where "h0 = undo h1"
  have h1: "history h1 = [0, 1, 2, 3]" "index h1 = 2"
    by (simp_all add: h1_def pushAll_def useHistory_def pushState_def undo_def slice0_def shift_def)
  have h0: "history h0 = [0, 1, 2, 3]" "index h0 = 1"
    by (simp_all add: h0_def h1 undo_def)
  have pre1: "0 < index h1 \<and> index h1 < int (length (history h1))"
    by (simp add: h1)
  have "canRedo (undo h1) \<and> currentState (undo h1) = Some (history h1 ! (nat (index h1) - 1))"
    using push_after_undo_discards_redo_branch [of h1 0 0 0 0 0] pre1 by blast
  then have cur: "canRedo h0" "currentState h0 = Some 1"
    by (simp_all add: h0_def h1)
  have pre0: "0 \<le> index h0 \<and> index h0 < int (length (history h0)) \<and> index h0 < 49"
    by (simp add: h0)
  have "history (pushState h0 9) = take (nat (index h0) + 1) (history h0) @ [9] \<and>
      currentState (pushState h0 9) = Some 9 \<and>
      history (navAll (pushState h0 9) [Undo, Undo, Redo, Redo, Redo])
        = take (nat (index h0) + 1) (history h0) @ [9]"
    using push_after_undo_discards_redo_branch [of h0 9 0 0 0 0] pre0 by blast
  then have push: "history (pushState h0 9) = [0, 1, 9]"
    "currentState (pushState h0 9) = Some 9"
    "history (navAll (pushState h0 9) [Undo, Undo, Redo, Redo, Redo]) = [0, 1, 9]"
    by (simp_all add: h0)
  show ?thesis using h0 cur push unfolding h0_def h1_def by simp
qed

section \<open>Properties of the rule parser\<close>

lemma match_part_letter:
  "match_part part = Some (t, g2, g3) \<Longrightarrow> t = 67 \<or> t = 82"
  by (auto simp: match_part_def Let_def split: list.splits if_splits)

text \<open>Where the parser is determined, its numbers are the numbers written.\<close>

lemma parseInt_zero: "(parseInt g = Exact 0) = (decimalValue g = 0)"
  by (simp add: parseInt_def)

lemma less_reading_parseInt:
  "less_reading (parseInt g) b = Some v \<Longrightarrow> v = less_num (decimalValue g) b"
  by (cases b) (auto simp: parseInt_def split: if_splits)

lemma assign_parseInt:
  "assign m (parseInt g2) (parseInt g3) = Some m' \<Longrightarrow>
   m' = m(decimalValue g2 \<mapsto> decimalValue g3)"
  by (auto simp: parseInt_def split: if_splits)

lemma apply_part_spec:
  assumes "apply_part bc br rules part = Some r"
  shows "r = (case spec_token bc br part of
                None \<Rightarrow> rules
              | Some (t, i, m) \<Rightarrow>
                  if t = 67 then rules\<lparr>cols := (cols rules)(i \<mapsto> m)\<rparr>
                  else rules\<lparr>rows := (rows rules)(i \<mapsto> m)\<rparr>)"
proof (cases "match_part part")
  case None
  then show ?thesis using assms by (simp add: apply_part_def spec_token_def)
next
  case (Some m)
  then obtain t g2 g3 where m: "match_part part = Some (t, g2, g3)" by (cases m) auto
  have t: "t = 67 \<or> t = 82" using m by (rule match_part_letter)
  show ?thesis
  proof (cases "decimalValue g3 = 0")
    case True
    then show ?thesis using assms m by (simp add: apply_part_def spec_token_def parseInt_zero)
  next
    case False
    then have nz: "parseInt g3 \<noteq> Exact 0" by (simp add: parseInt_zero)
    show ?thesis
    proof (cases "t = 67")
      case True
      then obtain v where v: "less_reading (parseInt g2) bc = Some v"
        using assms m nz by (auto simp: apply_part_def Let_def split: option.splits)
      have v': "v = less_num (decimalValue g2) bc" using v by (rule less_reading_parseInt)
      show ?thesis
      proof (cases v)
        case True
        then obtain m' where "assign (cols rules) (parseInt g2) (parseInt g3) = Some m'"
          and r: "r = rules\<lparr>cols := m'\<rparr>"
          using assms m nz v \<open>t = 67\<close> by (auto simp: apply_part_def Let_def)
        then have "m' = (cols rules)(decimalValue g2 \<mapsto> decimalValue g3)"
          using assign_parseInt by blast
        then show ?thesis
          using r m False True v' \<open>t = 67\<close> by (simp add: spec_token_def)
      next
        case False
        then have "r = rules"
          using assms m nz v \<open>t = 67\<close> by (auto simp: apply_part_def Let_def)
        then show ?thesis
          using m False v' \<open>t = 67\<close> by (simp add: spec_token_def)
      qed
    next
      case False
      then have t82: "t = 82" using t by simp
      then obtain v where v: "less_reading (parseInt g2) br = Some v"
        using assms m nz by (auto simp: apply_part_def Let_def split: option.splits)
      have v': "v = less_num (decimalValue g2) br" using v by (rule less_reading_parseInt)
      show ?thesis
      proof (cases v)
        case True
        then obtain m' where "assign (rows rules) (parseInt g2) (parseInt g3) = Some m'"
          and r: "r = rules\<lparr>rows := m'\<rparr>"
          using assms m nz v t82 by (auto simp: apply_part_def Let_def)
        then have "m' = (rows rules)(decimalValue g2 \<mapsto> decimalValue g3)"
          using assign_parseInt by blast
        then show ?thesis
          using r m \<open>decimalValue g3 \<noteq> 0\<close> True v' t82 by (simp add: spec_token_def)
      next
        case False
        then have "r = rules"
          using assms m nz v t82 by (auto simp: apply_part_def Let_def)
        then show ?thesis
          using m \<open>decimalValue g3 \<noteq> 0\<close> False v' t82 by (simp add: spec_token_def)
      qed
    qed
  qed
qed

lemma apply_part_defined:
  assumes "smallNumbers part"
  shows "\<exists>r. apply_part bc br rules part = Some r"
  using assms
  by (auto simp: smallNumbers_def apply_part_def parseInt_def Let_def
      split: option.splits bool.splits)

lemma apply_part_dropped:
  assumes "spec_token bc br part = None" and "smallNumbers part"
  shows "apply_part bc br rules part = Some rules"
  using apply_part_defined [OF assms(2), of bc br rules] apply_part_spec [of bc br rules part]
    assms(1)
  by auto

lemma spec_token_letter:
  "spec_token bc br part = Some (t, i, m) \<Longrightarrow> t = 67 \<or> t = 82"
  by (auto simp: spec_token_def split: option.splits if_splits dest: match_part_letter)

lemma spec_entries_snoc:
  "spec_entries a bc br (ps @ [p]) =
     spec_entries a bc br ps @
       (case spec_token bc br p of
          None \<Rightarrow> []
        | Some (t, i, m) \<Rightarrow> if t = a then [(i, m)] else [])"
  by (auto simp: spec_entries_def List.map_filter_def split: option.splits)

text \<open>Read in order, a later entry for an index replaces an earlier one.\<close>

lemma foldl_apply_part:
  "foldl (\<lambda>acc part. Option.bind acc (\<lambda>rules. apply_part bc br rules part)) (Some rules) ps
     = Some r \<Longrightarrow>
   cols r = cols rules ++ map_of (rev (spec_entries 67 bc br ps)) \<and>
   rows r = rows rules ++ map_of (rev (spec_entries 82 bc br ps))"
proof (induction ps arbitrary: r rule: rev_induct)
  case Nil
  then show ?case by (simp add: spec_entries_def List.map_filter_def)
next
  case (snoc p ps)
  then obtain r0 where
    r0: "foldl (\<lambda>acc part. Option.bind acc (\<lambda>rules. apply_part bc br rules part)) (Some rules) ps
           = Some r0"
    and r: "apply_part bc br r0 p = Some r"
    by (auto simp: bind_eq_Some_conv)
  show ?case
    using snoc.IH [OF r0] apply_part_spec [OF r]
    by (auto simp: spec_entries_snoc split: option.splits dest: spec_token_letter)
qed

lemma foldl_apply_defined:
  "list_all smallNumbers ps \<Longrightarrow>
   \<exists>r. foldl (\<lambda>acc part. Option.bind acc (\<lambda>rules. apply_part bc br rules part)) (Some rules) ps
         = Some r"
proof (induction ps rule: rev_induct)
  case Nil
  then show ?case by simp
next
  case (snoc p ps)
  then obtain r0 where
    "foldl (\<lambda>acc part. Option.bind acc (\<lambda>rules. apply_part bc br rules part)) (Some rules) ps
       = Some r0"
    by auto
  then show ?case using apply_part_defined [of p bc br r0] snoc.prems by auto
qed

lemma rule_parts_Nil: "rule_parts [] = []"
  by (simp add: rule_parts_def trim_def toUpperCase_def)

lemma parse_maps:
  assumes "parseSubdivisionRules s bc br = Some r"
  shows "cols r = map_of (rev (spec_entries 67 bc br (rule_parts s)))"
    and "rows r = map_of (rev (spec_entries 82 bc br (rule_parts s)))"
proof -
  have "cols r = map_of (rev (spec_entries 67 bc br (rule_parts s))) \<and>
        rows r = map_of (rev (spec_entries 82 bc br (rule_parts s)))"
  proof (cases "s = []")
    case True
    then show ?thesis
      using assms
      by (auto simp: parseSubdivisionRules_def no_rules_def rule_parts_Nil spec_entries_def
          List.map_filter_def)
  next
    case False
    then have "foldl (\<lambda>acc part. Option.bind acc (\<lambda>rules. apply_part bc br rules part))
                 (Some no_rules) (rule_parts s) = Some r"
      using assms by (simp add: parseSubdivisionRules_def)
    from foldl_apply_part [OF this] show ?thesis by (simp add: no_rules_def)
  qed
  then show "cols r = map_of (rev (spec_entries 67 bc br (rule_parts s)))"
    and "rows r = map_of (rev (spec_entries 82 bc br (rule_parts s)))"
    by simp_all
qed

lemma parse_defined:
  assumes "list_all smallNumbers (rule_parts s)"
  shows "\<exists>r. parseSubdivisionRules s bc br = Some r"
  using foldl_apply_defined [OF assms, of bc br no_rules]
  by (simp add: parseSubdivisionRules_def)

text \<open>Splitting on commas and joining with commas are inverse to each other.\<close>

lemma split_comma_nonempty: "split_comma s \<noteq> []"
  by (induction s) (auto split: list.splits)

lemma join_split: "joinComma (split_comma s) = s"
proof (induction s)
  case Nil
  then show ?case by simp
next
  case (Cons c cs)
  obtain p ps where sp: "split_comma cs = p # ps"
    using split_comma_nonempty [of cs] by (cases "split_comma cs") auto
  show ?case using Cons sp by (cases ps) auto
qed

lemma split_no_comma: "list_all (\<lambda>p. 44 \<notin> set p) (split_comma s)"
  by (induction s) (auto split: list.splits)

lemma split_piece:
  assumes "44 \<notin> set p"
  shows "split_comma p = [p]" and "split_comma (p @ 44 # rest) = p # split_comma rest"
  using assms by (induction p) auto

lemma split_join:
  "ps \<noteq> [] \<Longrightarrow> list_all (\<lambda>p. 44 \<notin> set p) ps \<Longrightarrow> split_comma (joinComma ps) = ps"
  by (induction ps rule: joinComma.induct) (simp_all add: split_piece)

text \<open>\<open>trim\<close> removes exactly the white space at the two ends.\<close>

lemma dropWhile_run:
  assumes "list_all P xs" and "ys = [] \<or> \<not> P (hd ys)"
  shows "dropWhile P (xs @ ys) = ys" and "takeWhile P (xs @ ys) = xs"
proof -
  have "dropWhile P ys = ys" "takeWhile P ys = []"
    using assms(2) by (cases ys; simp)+
  then show "dropWhile P (xs @ ys) = ys" "takeWhile P (xs @ ys) = xs"
    using assms(1) by (simp_all add: list_all_iff dropWhile_append3 dropWhile_append2 takeWhile_append2)
qed

lemma trim_ends:
  assumes "list_all is_space a" and "list_all is_space b"
    and "w = [] \<or> \<not> is_space (hd w) \<and> \<not> is_space (last w)"
  shows "trim (a @ w @ b) = w"
proof (cases "w = []")
  case True
  have d: "dropWhile is_space (a @ w @ b) = []"
    using True assms(1,2) by (simp add: dropWhile_eq_Nil_conv list_all_iff)
  show ?thesis unfolding trim_def d using True by simp
next
  case False
  then have h: "\<not> is_space (hd (w @ b))" and l: "\<not> is_space (hd (rev w))"
    using assms(3) by (simp_all add: hd_rev)
  have 1: "dropWhile is_space (a @ w @ b) = w @ b"
    using assms(1) h by (intro dropWhile_run(1)) simp_all
  have "list_all is_space (rev b)" using assms(2) by (simp add: list_all_iff)
  then have 2: "dropWhile is_space (rev b @ rev w) = rev w"
    using l by (intro dropWhile_run(1)) simp_all
  show ?thesis by (simp add: trim_def 1 2)
qed

lemma is_space_units: "is_space u = (u \<in> set whiteSpaceUnits)"
  unfolding is_space_def whiteSpaceUnits_def by (simp only: set_simps insert_iff empty_iff) arith

lemma is_digit_units: "is_digit u = (u \<in> set (js ''0123456789''))"
  unfolding is_digit_def js_def by (simp only: list.map of_char_Char set_simps insert_iff empty_iff) (simp, arith)

lemma toUpperCase_append: "toUpperCase (x @ y) = toUpperCase x @ toUpperCase y"
  by (simp add: toUpperCase_def)

lemma toUpperCase_letters:
  "toUpperCase (js ''abcdefghijklmnopqrstuvwxyz'') = js ''ABCDEFGHIJKLMNOPQRSTUVWXYZ''"
  by (simp add: toUpperCase_def toUpperCase_unit_def js_def)

lemma toUpperCase_others:
  "list_all (\<lambda>u. u < 97 \<or> 122 < u) z \<Longrightarrow> toUpperCase z = z"
  by (induction z) (auto simp: toUpperCase_def toUpperCase_unit_def)

lemma decimalValue_digits:
  "decimalValue [] = 0" "decimalValue (ds @ [d]) = 10 * decimalValue ds + (d - 48)"
  by (simp_all add: decimalValue_def)

text \<open>The matcher accepts exactly the tokens of the grammar, with the same groups.\<close>

lemma digit_not_space: "is_digit c \<Longrightarrow> \<not> is_space c"
  by (auto simp: is_digit_def is_space_def)

lemma colon_class: "\<not> is_space 58" "\<not> is_digit 58"
  by (simp_all add: is_digit_def is_space_def)

lemma match_part_complete:
  assumes "spec_pattern part t g2 g3"
  shows "match_part part = Some (t, g2, g3)"
proof -
  obtain s1 s2 s3 where sp: "list_all is_space s1" "list_all is_space s2" "list_all is_space s3"
    and part: "part = t # s1 @ g2 @ s2 @ 58 # s3 @ g3"
    using assms by (auto simp: spec_pattern_def)
  have t: "t = 67 \<or> t = 82" and ne: "g2 \<noteq> []" "g3 \<noteq> []"
    and dg: "list_all is_digit g2" "list_all is_digit g3"
    using assms by (simp_all add: spec_pattern_def)
  have h2: "\<not> is_space (hd (g2 @ s2 @ 58 # s3 @ g3))"
    using ne(1) dg(1) by (cases g2) (auto simp: digit_not_space)
  have h3: "\<not> is_space (hd g3)" using ne(2) dg(2) by (cases g3) (auto simp: digit_not_space)
  have hs2: "\<not> is_digit (hd (s2 @ 58 # s3 @ g3))"
    using sp(2) colon_class(2) digit_not_space by (cases s2) auto
  have r1: "dropWhile is_space (s1 @ g2 @ s2 @ 58 # s3 @ g3) = g2 @ s2 @ 58 # s3 @ g3"
    using dropWhile_run(1) [OF sp(1)] h2 by blast
  have g2: "takeWhile is_digit (g2 @ s2 @ 58 # s3 @ g3) = g2"
    and r2: "dropWhile is_digit (g2 @ s2 @ 58 # s3 @ g3) = s2 @ 58 # s3 @ g3"
    using dropWhile_run [OF dg(1)] hs2 by blast+
  have r3: "dropWhile is_space (s2 @ 58 # s3 @ g3) = 58 # s3 @ g3"
    using dropWhile_run(1) [OF sp(2), of "58 # s3 @ g3"] colon_class(1) by simp
  have r4: "dropWhile is_space (s3 @ g3) = g3"
    using dropWhile_run(1) [OF sp(3)] h3 by blast
  have g3: "takeWhile is_digit g3 = g3" "dropWhile is_digit g3 = []"
    using dropWhile_run [OF dg(2), of "[]"] by simp_all
  show ?thesis
    using t ne dg(2) unfolding match_part_def part
    by (simp add: r1 g2 r2 r3 r4 g3 Let_def list_all_iff)
qed

lemma match_part_sound:
  assumes "match_part part = Some (t, g2, g3)"
  shows "spec_pattern part t g2 g3"
proof -
  obtain r0 where part: "part = t # r0"
    using assms
    by (cases part) (auto simp: match_part_def Let_def split: if_splits list.splits)
  define r1 where "r1 = dropWhile is_space r0"
  define r2 where "r2 = dropWhile is_space (dropWhile is_digit r1)"
  have t: "t = 67 \<or> t = 82"
    and g2: "g2 = takeWhile is_digit r1" "g2 \<noteq> []"
    and tail: "\<exists>r3. r2 = 58 # r3 \<and> g3 = takeWhile is_digit (dropWhile is_space r3) \<and>
                 g3 \<noteq> [] \<and> dropWhile is_digit (dropWhile is_space r3) = []"
    using assms unfolding part r1_def r2_def
    by (auto simp: match_part_def Let_def split: if_splits list.splits)
  obtain r3 where r3: "r2 = 58 # r3"
    and g3': "g3 = takeWhile is_digit (dropWhile is_space r3)" "g3 \<noteq> []"
      "dropWhile is_digit (dropWhile is_space r3) = []"
    using tail by blast
  define r4 where "r4 = dropWhile is_space r3"
  have g3: "g3 = takeWhile is_digit r4" "g3 \<noteq> []" "dropWhile is_digit r4 = []"
    using g3' by (simp_all add: r4_def)
  have e0: "r0 = takeWhile is_space r0 @ r1" by (simp add: r1_def)
  have e1: "r1 = g2 @ dropWhile is_digit r1" by (simp add: g2(1))
  have e2: "dropWhile is_digit r1 = takeWhile is_space (dropWhile is_digit r1) @ r2"
    by (simp add: r2_def)
  have e3: "r3 = takeWhile is_space r3 @ r4" by (simp add: r4_def)
  have e4: "r4 = g3"
    by (metis g3(1) g3(3) takeWhile_dropWhile_id append_Nil2)
  have "part = t # takeWhile is_space r0 @ g2 @ takeWhile is_space (dropWhile is_digit r1)
           @ 58 # takeWhile is_space r3 @ g3"
    using part e0 e1 e2 e3 e4 r3 by metis
  moreover have "list_all is_space (takeWhile is_space r0)"
    "list_all is_space (takeWhile is_space (dropWhile is_digit r1))"
    "list_all is_space (takeWhile is_space r3)"
    "list_all is_digit g2" "list_all is_digit g3"
    by (auto simp: list_all_iff g2(1) g3(1) dest: set_takeWhileD)
  ultimately show ?thesis
    unfolding spec_pattern_def using t g2(2) g3(2) by blast
qed

lemma match_part_grammar:
  "match_part part = Some (t, g2, g3) \<longleftrightarrow> spec_pattern part t g2 g3"
  using match_part_sound match_part_complete by blast

lemmas parse_eval = parseSubdivisionRules_def rule_parts_def trim_def toUpperCase_def
  toUpperCase_unit_def is_space_def apply_part_def match_part_def is_digit_def parseInt_def
  decimalValue_def no_rules_def js_def Let_def

text \<open>The examples of the specification.\<close>

lemma parse_examples:
  "parseSubdivisionRules (js ''C1:4,R3:2'') (Num 10) (Num 14)
     = Some \<lparr>cols = [1 \<mapsto> 4], rows = [3 \<mapsto> 2]\<rparr>"
  "parseSubdivisionRules (js ''X9:9'') (Num 10) (Num 14)
     = Some \<lparr>cols = Map.empty, rows = Map.empty\<rparr>"
  "parseSubdivisionRules (js ''C99:4'') (Num 10) (Num 14)
     = Some \<lparr>cols = Map.empty, rows = Map.empty\<rparr>"
  by (simp_all add: parse_eval)

text \<open>
  White space around a token and inside it, lower case, white space outside ASCII
  (no-break space, line separator, ideographic space, byte order mark), a repeated
  index, the first index outside the range, a zero multiplier, a leading zero and a
  count that is not a number.
\<close>

lemma parse_tokens:
  "parseSubdivisionRules (js ''C1:4, R3:2'') (Num 10) (Num 14)
     = Some \<lparr>cols = [1 \<mapsto> 4], rows = [3 \<mapsto> 2]\<rparr>"
  "parseSubdivisionRules [32, 99, 160, 49, 8232, 58, 12288, 52, 65279] (Num 10) (Num 14)
     = Some \<lparr>cols = [1 \<mapsto> 4], rows = Map.empty\<rparr>"
  "parseSubdivisionRules (js ''C1:4,C1:3'') (Num 10) (Num 14)
     = Some \<lparr>cols = [1 \<mapsto> 3], rows = Map.empty\<rparr>"
  "parseSubdivisionRules (js ''C10:4,C9:4,C2:0,R012:5'') (Num 10) (Num 14)
     = Some \<lparr>cols = [9 \<mapsto> 4], rows = [12 \<mapsto> 5]\<rparr>"
  "parseSubdivisionRules (js ''C0:2'') NaN (Num 14)
     = Some \<lparr>cols = Map.empty, rows = Map.empty\<rparr>"
  by (simp_all add: parse_eval)

text \<open>
  Numbers at \<open>2^53\<close>: an index that large is outside ten columns, and outside a
  count that is not a number, whatever its rounding; among \<open>10^16\<close> columns the key
  under which the source stores it depends on the rounding, and the rules are not
  determined. A multiplier that large on a column of the grid leaves the rules
  undetermined, and on a column outside the grid it is dropped with its token.
\<close>

lemma parse_huge:
  "parseInt (js ''9007199254740991'') = Exact 9007199254740991"
  "parseInt (js ''9007199254740992'') = Huge"
  "parseInt (js ''0010'') = Exact 10"
  "parseSubdivisionRules (js ''C9007199254740993:2'') (Num 10) (Num 14)
     = Some \<lparr>cols = Map.empty, rows = Map.empty\<rparr>"
  "parseSubdivisionRules (js ''C1:9007199254740993'') (Num 10) (Num 14) = None"
  "parseSubdivisionRules (js ''C99:9007199254740993'') (Num 10) (Num 14)
     = Some \<lparr>cols = Map.empty, rows = Map.empty\<rparr>"
  "parseSubdivisionRules (js ''C9007199254740993:2'') NaN (Num 14)
     = Some \<lparr>cols = Map.empty, rows = Map.empty\<rparr>"
  "parseSubdivisionRules (js ''C9007199254740993:2'') (Num 10000000000000000) (Num 14) = None"
  by (simp_all add: parse_eval)

text \<open>
  C4. The empty string gives empty maps. Whenever the parser determines the rules, the
  column map and the row map are the accepted tokens of their axis read in order, the
  last entry for an index winning (\<open>map_of\<close> of the reversed list), where a token is
  accepted as the specification words it; the rules are determined when the numbers of
  the tokens are below \<open>2^53\<close>; and a token that the grammar drops (no match,
  multiplier not positive, index outside its axis) leaves the rules as they are. The
  parts of the parser are what their names say: the matcher accepts exactly the tokens
  of the pattern's grammar; the pieces of the split have no comma and, joined with
  commas, give the string back, and a list of such pieces is the split of its join;
  \<open>trim\<close> removes the white space at the two ends and nothing else, white space being
  the listed code units and the digits the ten characters 0 to 9; \<open>toUpperCase\<close> works character by character, turns the
  letters a to z into A to Z and keeps every string without these letters; a run of
  digits is read in base ten. The three examples of the specification evaluate as
  stated, and so do tokens with white space in and outside ASCII, lower case, repeated
  indices, indices at the end of the range, a zero multiplier, a leading zero, a count
  that is not a number, and numbers at \<open>2^53\<close>.
\<close>

theorem parseSubdivisionRules_spec:
  "parseSubdivisionRules [] bc br = Some \<lparr>cols = Map.empty, rows = Map.empty\<rparr> \<and>
   (parseSubdivisionRules s bc br = Some r \<longrightarrow>
      cols r = map_of (rev (spec_entries 67 bc br (rule_parts s))) \<and>
      rows r = map_of (rev (spec_entries 82 bc br (rule_parts s)))) \<and>
   (list_all smallNumbers (rule_parts s) \<longrightarrow> (\<exists>r'. parseSubdivisionRules s bc br = Some r')) \<and>
   (spec_token bc br part = None \<and> smallNumbers part \<longrightarrow>
      apply_part bc br rules part = Some rules) \<and>
   (match_part part = Some (t, g2, g3)) = spec_pattern part t g2 g3 \<and>
   joinComma (split_comma s) = s \<and> list_all (\<lambda>p. 44 \<notin> set p) (split_comma s) \<and>
   (ps \<noteq> [] \<and> list_all (\<lambda>p. 44 \<notin> set p) ps \<longrightarrow> split_comma (joinComma ps) = ps) \<and>
   (list_all is_space a \<and> list_all is_space b \<and>
    (w = [] \<or> \<not> is_space (hd w) \<and> \<not> is_space (last w)) \<longrightarrow> trim (a @ w @ b) = w) \<and>
   is_space u = (u \<in> set whiteSpaceUnits) \<and>
   is_digit u = (u \<in> set (js ''0123456789'')) \<and>
   toUpperCase (x @ y) = toUpperCase x @ toUpperCase y \<and>
   toUpperCase (js ''abcdefghijklmnopqrstuvwxyz'') = js ''ABCDEFGHIJKLMNOPQRSTUVWXYZ'' \<and>
   (list_all (\<lambda>u. u < 97 \<or> 122 < u) z \<longrightarrow> toUpperCase z = z) \<and>
   decimalValue [] = 0 \<and> decimalValue (ds @ [d]) = 10 * decimalValue ds + (d - 48) \<and>
   parseInt (js ''0010'') = Exact 10 \<and>
   parseInt (js ''9007199254740991'') = Exact 9007199254740991 \<and>
   parseInt (js ''9007199254740992'') = Huge \<and>
   parseSubdivisionRules (js ''C1:4,R3:2'') (Num 10) (Num 14)
     = Some \<lparr>cols = [1 \<mapsto> 4], rows = [3 \<mapsto> 2]\<rparr> \<and>
   parseSubdivisionRules (js ''X9:9'') (Num 10) (Num 14)
     = Some \<lparr>cols = Map.empty, rows = Map.empty\<rparr> \<and>
   parseSubdivisionRules (js ''C99:4'') (Num 10) (Num 14)
     = Some \<lparr>cols = Map.empty, rows = Map.empty\<rparr> \<and>
   parseSubdivisionRules (js ''C1:4, R3:2'') (Num 10) (Num 14)
     = Some \<lparr>cols = [1 \<mapsto> 4], rows = [3 \<mapsto> 2]\<rparr> \<and>
   parseSubdivisionRules [32, 99, 160, 49, 8232, 58, 12288, 52, 65279] (Num 10) (Num 14)
     = Some \<lparr>cols = [1 \<mapsto> 4], rows = Map.empty\<rparr> \<and>
   parseSubdivisionRules (js ''C1:4,C1:3'') (Num 10) (Num 14)
     = Some \<lparr>cols = [1 \<mapsto> 3], rows = Map.empty\<rparr> \<and>
   parseSubdivisionRules (js ''C10:4,C9:4,C2:0,R012:5'') (Num 10) (Num 14)
     = Some \<lparr>cols = [9 \<mapsto> 4], rows = [12 \<mapsto> 5]\<rparr> \<and>
   parseSubdivisionRules (js ''C0:2'') NaN (Num 14)
     = Some \<lparr>cols = Map.empty, rows = Map.empty\<rparr> \<and>
   parseSubdivisionRules (js ''C9007199254740993:2'') (Num 10) (Num 14)
     = Some \<lparr>cols = Map.empty, rows = Map.empty\<rparr> \<and>
   parseSubdivisionRules (js ''C1:9007199254740993'') (Num 10) (Num 14) = None \<and>
   parseSubdivisionRules (js ''C99:9007199254740993'') (Num 10) (Num 14)
     = Some \<lparr>cols = Map.empty, rows = Map.empty\<rparr> \<and>
   parseSubdivisionRules (js ''C9007199254740993:2'') NaN (Num 14)
     = Some \<lparr>cols = Map.empty, rows = Map.empty\<rparr> \<and>
   parseSubdivisionRules (js ''C9007199254740993:2'') (Num 10000000000000000) (Num 14) = None"
proof -
  have "parseSubdivisionRules [] bc br = Some \<lparr>cols = Map.empty, rows = Map.empty\<rparr>"
    by (simp add: parseSubdivisionRules_def no_rules_def)
  moreover have "parseSubdivisionRules s bc br = Some r \<longrightarrow>
      cols r = map_of (rev (spec_entries 67 bc br (rule_parts s))) \<and>
      rows r = map_of (rev (spec_entries 82 bc br (rule_parts s)))"
    using parse_maps [of s bc br r] by blast
  moreover have "list_all smallNumbers (rule_parts s) \<longrightarrow>
      (\<exists>r'. parseSubdivisionRules s bc br = Some r')"
    using parse_defined [of s bc br] by blast
  moreover have "spec_token bc br part = None \<and> smallNumbers part \<longrightarrow>
      apply_part bc br rules part = Some rules"
    using apply_part_dropped [of bc br part rules] by blast
  moreover have "(match_part part = Some (t, g2, g3)) = spec_pattern part t g2 g3"
    by (rule match_part_grammar)
  moreover have "joinComma (split_comma s) = s \<and> list_all (\<lambda>p. 44 \<notin> set p) (split_comma s)"
    using join_split [of s] split_no_comma [of s] by blast
  moreover have "ps \<noteq> [] \<and> list_all (\<lambda>p. 44 \<notin> set p) ps \<longrightarrow> split_comma (joinComma ps) = ps"
    using split_join [of ps] by blast
  moreover have "list_all is_space a \<and> list_all is_space b \<and>
      (w = [] \<or> \<not> is_space (hd w) \<and> \<not> is_space (last w)) \<longrightarrow> trim (a @ w @ b) = w"
    using trim_ends [of a b w] by blast
  moreover have "is_space u = (u \<in> set whiteSpaceUnits)"
    by (rule is_space_units)
  moreover have "is_digit u = (u \<in> set (js ''0123456789''))"
    by (rule is_digit_units)
  moreover have "toUpperCase (x @ y) = toUpperCase x @ toUpperCase y"
    by (rule toUpperCase_append)
  moreover have "list_all (\<lambda>u. u < 97 \<or> 122 < u) z \<longrightarrow> toUpperCase z = z"
    using toUpperCase_others [of z] by blast
  moreover have "decimalValue [] = 0 \<and> decimalValue (ds @ [d]) = 10 * decimalValue ds + (d - 48)"
    using decimalValue_digits(1) decimalValue_digits(2) [of ds d] by blast
  ultimately show ?thesis
    using toUpperCase_letters parse_examples parse_tokens parse_huge
    by (simp only: simp_thms)
qed

text \<open>
  The theorem on a rule string with a token of a third letter, white space, lower case,
  a repeated column and a column outside the grid; on a token with a zero multiplier;
  on pieces of which one is empty; on a token between white space of both kinds; and on
  a string without small letters.
\<close>

theorem parseSubdivisionRules_spec_witness:
  "parseSubdivisionRules (js ''C1:4, x9:9 ,c 1 : 3,C10:2'') (Num 10) (Num 14)
     = Some \<lparr>cols = [1 \<mapsto> 3], rows = Map.empty\<rparr> \<and>
   spec_entries 67 (Num 10) (Num 14) (rule_parts (js ''C1:4, x9:9 ,c 1 : 3,C10:2''))
     = [(1, 4), (1, 3)] \<and>
   spec_entries 82 (Num 10) (Num 14) (rule_parts (js ''C1:4, x9:9 ,c 1 : 3,C10:2'')) = [] \<and>
   list_all smallNumbers (rule_parts (js ''C1:4, x9:9 ,c 1 : 3,C10:2'')) \<and>
   spec_token (Num 10) (Num 14) (js ''C2:0'') = None \<and> smallNumbers (js ''C2:0'') \<and>
   apply_part (Num 10) (Num 14) \<lparr>cols = [1 \<mapsto> 4], rows = Map.empty\<rparr> (js ''C2:0'')
     = Some \<lparr>cols = [1 \<mapsto> 4], rows = Map.empty\<rparr> \<and>
   match_part (js ''C2:0'') = Some (67, js ''2'', js ''0'') \<and>
   spec_pattern (js ''C2:0'') 67 (js ''2'') (js ''0'') \<and>
   split_comma (joinComma [js ''a'', [], js ''b c'']) = [js ''a'', [], js ''b c''] \<and>
   trim ([32, 160] @ js ''C 1'' @ [9, 65279]) = js ''C 1'' \<and>
   toUpperCase (js ''C 1:4'') = js ''C 1:4''"
proof -
  let ?s = "js ''C1:4, x9:9 ,c 1 : 3,C10:2''"
  let ?r = "\<lparr>cols = [1 \<mapsto> 3], rows = Map.empty\<rparr>"
  let ?rules = "\<lparr>cols = [1 \<mapsto> 4], rows = Map.empty\<rparr>"
  let ?ps = "[js ''a'', [], js ''b c'']"
  note th = parseSubdivisionRules_spec [where bc = "Num 10" and br = "Num 14" and s = ?s
      and r = ?r and part = "js ''C2:0''" and rules = ?rules and t = 67 and ?g2.0 = "js ''2''"
      and ?g3.0 = "js ''0''" and ps = ?ps and a = "[32, 160]" and w = "js ''C 1''"
      and b = "[9, 65279]" and u = 160 and x = "[]" and y = "[]" and z = "js ''C 1:4''"
      and ds = "[]" and d = 48]
  have p: "parseSubdivisionRules ?s (Num 10) (Num 14) = Some ?r"
    by (simp add: parse_eval)
  have e: "spec_entries 67 (Num 10) (Num 14) (rule_parts ?s) = [(1, 4), (1, 3)]"
    "spec_entries 82 (Num 10) (Num 14) (rule_parts ?s) = []"
    by (simp_all add: spec_entries_def List.map_filter_def spec_token_def parse_eval)
  have sm: "list_all smallNumbers (rule_parts ?s)"
    by (simp add: smallNumbers_def parse_eval)
  have t: "spec_token (Num 10) (Num 14) (js ''C2:0'') = None" "smallNumbers (js ''C2:0'')"
    by (simp_all add: spec_token_def smallNumbers_def parse_eval)
  have m: "match_part (js ''C2:0'') = Some (67, js ''2'', js ''0'')"
    by (simp add: parse_eval)
  have c: "?ps \<noteq> [] \<and> list_all (\<lambda>p. 44 \<notin> set p) ?ps"
    by (simp add: js_def)
  have w: "list_all is_space [32, 160] \<and> list_all is_space [9, 65279] \<and>
      (js ''C 1'' = [] \<or> \<not> is_space (hd (js ''C 1'')) \<and> \<not> is_space (last (js ''C 1'')))"
    by (simp add: is_space_def js_def)
  have z: "list_all (\<lambda>u. u < 97 \<or> 122 < u) (js ''C 1:4'')"
    by (simp add: js_def)
  have "apply_part (Num 10) (Num 14) ?rules (js ''C2:0'') = Some ?rules"
    using th t by blast
  moreover have "spec_pattern (js ''C2:0'') 67 (js ''2'') (js ''0'')"
    using th m by blast
  moreover have "split_comma (joinComma ?ps) = ?ps"
    using th c by blast
  moreover have "trim ([32, 160] @ js ''C 1'' @ [9, 65279]) = js ''C 1''"
    using th w by blast
  moreover have "toUpperCase (js ''C 1:4'') = js ''C 1:4''"
    using th z by blast
  ultimately show ?thesis
    using p e sm t m by (simp only: simp_thms)
qed

text \<open>The rules of the initial rule string.\<close>

lemma initialRules_defined:
  "parseSubdivisionRules (ruleString INITIAL_CONFIG) (baseCols INITIAL_CONFIG)
     (baseRows INITIAL_CONFIG) = Some \<lparr>cols = [1 \<mapsto> 4], rows = [3 \<mapsto> 2]\<rparr>"
proof -
  have "\<lfloor>10 * gridRatio + 1 / 2\<rfloor> = 21"
    by (simp add: gridRatio_def SVG_HEIGHT_def SVG_WIDTH_def GRID_MARGIN_def floor_eq_iff)
  then show ?thesis by (simp add: INITIAL_CONFIG_def parse_eval)
qed

section \<open>Properties of the geometric queries\<close>

lemma polyStep_foldl:
  "foldl (polyStep p vs) (length vs - 1, False) [0 ..< k] =
     (prevIndex (length vs) k,
      odd (length (filter (\<lambda>i. intersect p (vs ! i) (vs ! prevIndex (length vs) i)) [0 ..< k])))"
proof (induction k)
  case 0
  then show ?case by (simp add: prevIndex_def)
next
  case (Suc k)
  then show ?case by (simp add: polyStep_def prevIndex_def)
qed

lemma closedEdges_nth:
  assumes "vs \<noteq> []"
  shows "closedEdges vs = map (\<lambda>i. (vs ! i, vs ! prevIndex (length vs) i)) [0 ..< length vs]"
proof (rule nth_equalityI)
  show "length (closedEdges vs) = length (map (\<lambda>i. (vs ! i, vs ! prevIndex (length vs) i)) [0 ..< length vs])"
    using assms by (simp add: closedEdges_def)
next
  fix i assume "i < length (closedEdges vs)"
  then have i: "i < length vs" using assms by (simp add: closedEdges_def)
  have "(last vs # butlast vs) ! i = vs ! prevIndex (length vs) i"
  proof (cases i)
    case 0
    then show ?thesis using assms by (simp add: prevIndex_def last_conv_nth)
  next
    case (Suc j)
    then show ?thesis using i by (simp add: prevIndex_def nth_butlast)
  qed
  then show "closedEdges vs ! i = map (\<lambda>i. (vs ! i, vs ! prevIndex (length vs) i)) [0 ..< length vs] ! i"
    using i assms by (simp add: closedEdges_def)
qed

text \<open>The edge test of the loop is the ray crossing of the geometric reading.\<close>

lemma between:
  fixes u v t :: real
  assumes "0 \<le> t" and "t \<le> 1"
  shows "min u v \<le> u + t * (v - u)" and "u + t * (v - u) \<le> max u v"
proof -
  have a: "u + t * (v - u) = (1 - t) * u + t * v" by (simp add: algebra_simps)
  have "(1 - t) * min u v \<le> (1 - t) * u" "t * min u v \<le> t * v"
    using assms by (simp_all add: mult_left_mono)
  then have "(1 - t) * min u v + t * min u v \<le> (1 - t) * u + t * v" by linarith
  then show "min u v \<le> u + t * (v - u)" unfolding a by (simp add: algebra_simps)
  have "(1 - t) * u \<le> (1 - t) * max u v" "t * v \<le> t * max u v"
    using assms by (simp_all add: mult_left_mono)
  then have "(1 - t) * u + t * v \<le> (1 - t) * max u v + t * max u v" by linarith
  then show "u + t * (v - u) \<le> max u v" unfolding a by (simp add: algebra_simps)
qed

lemma intersect_sound:
  assumes "intersect p a b"
  shows "crossesRay p a b"
proof -
  have str: "(py a > py p) \<noteq> (py b > py p)"
    and right: "px p < (px b - px a) * (py p - py a) / (py b - py a) + px a"
    using assms by (simp_all add: intersect_def Let_def)
  have ne: "py b \<noteq> py a" using str by auto
  define t where "t = (py p - py a) / (py b - py a)"
  have t01: "0 \<le> t \<and> t \<le> 1"
  proof (cases "py a > py p")
    case True
    then have "py b \<le> py p" using str by auto
    then show ?thesis using True unfolding t_def by (simp add: field_simps)
  next
    case False
    then have "py b > py p" using str by auto
    then show ?thesis using False unfolding t_def by (simp add: field_simps)
  qed
  have h: "py a + t * (py b - py a) = py p" using ne unfolding t_def by simp
  have m: "py p < max (py a) (py b)" using str by auto
  have "px a + t * (px b - px a) = (px b - px a) * (py p - py a) / (py b - py a) + px a"
    unfolding t_def by (simp add: algebra_simps)
  then have r: "px p < px a + t * (px b - px a)" using right by simp
  show ?thesis unfolding crossesRay_def using t01 h m r by blast
qed

lemma intersect_complete:
  assumes "crossesRay p a b"
  shows "intersect p a b"
proof -
  obtain t where t: "0 \<le> t" "t \<le> 1" and h: "py a + t * (py b - py a) = py p"
    and m: "py p < max (py a) (py b)" and r: "px p < px a + t * (px b - px a)"
    using assms unfolding crossesRay_def by blast
  have lo: "min (py a) (py b) \<le> py p" using between(1) [OF t, of "py a" "py b"] h by simp
  have str: "(py a > py p) \<noteq> (py b > py p)" using lo m by (auto simp: min_def max_def split: if_splits)
  then have ne: "py b - py a \<noteq> 0" by auto
  have "t * (py b - py a) = py p - py a" using h by simp
  then have "t = (py p - py a) / (py b - py a)" using ne by (simp add: field_simps)
  then have "px a + t * (px b - px a) = (px b - px a) * (py p - py a) / (py b - py a) + px a"
    by (simp add: algebra_simps)
  then show ?thesis using str r by (simp add: intersect_def Let_def)
qed

lemma intersect_crossesRay: "intersect p a b = crossesRay p a b"
  using intersect_sound intersect_complete by blast

lemma crossings_index:
  assumes "vs \<noteq> []"
  shows "crossings p vs = length (filter (\<lambda>i. intersect p (vs ! i) (vs ! prevIndex (length vs) i)) [0 ..< length vs])"
  unfolding crossings_def closedEdges_nth [OF assms]
  by (simp add: filter_map o_def intersect_crossesRay)

lemma isPointInPolygon_crossings:
  "isPointInPolygon p vs = (3 \<le> length vs \<and> odd (crossings p vs))"
proof (cases "length vs < 3")
  case True
  then show ?thesis by (simp add: isPointInPolygon_def)
next
  case False
  then have "vs \<noteq> []" by auto
  then show ?thesis using False polyStep_foldl [of p vs "length vs"]
    by (simp add: isPointInPolygon_def crossings_index)
qed

lemmas polygon_eval = isPointInPolygon_def polyStep_def intersect_def upt_rec

text \<open>
  C9. With fewer than three points the test is false for every point. The edge test
  of the loop holds exactly when the ray from the point to the right crosses the edge,
  and the result is the parity of the number of edges of the closed loop that the ray
  crosses. On the square with corners (0,0), (10,0), (10,10), (0,10) the point (5,5)
  is inside and (15,5) is outside; on the triangle (0,0), (10,0), (0,10) the points
  (2,2) and (6,3) are inside, (6,5) and (8,8) outside; on the L-shaped polygon (2,7)
  and (7,2) are inside and (7,7), in the notch, is outside.
\<close>

theorem isPointInPolygon_spec:
  "(length vs < 3 \<longrightarrow> \<not> isPointInPolygon p vs) \<and>
   intersect p a b = crossesRay p a b \<and>
   isPointInPolygon p vs = (3 \<le> length vs \<and> odd (crossings p vs)) \<and>
   isPointInPolygon \<lparr>px = 5, py = 5\<rparr>
     [\<lparr>px = 0, py = 0\<rparr>, \<lparr>px = 10, py = 0\<rparr>, \<lparr>px = 10, py = 10\<rparr>, \<lparr>px = 0, py = 10\<rparr>] \<and>
   \<not> isPointInPolygon \<lparr>px = 15, py = 5\<rparr>
     [\<lparr>px = 0, py = 0\<rparr>, \<lparr>px = 10, py = 0\<rparr>, \<lparr>px = 10, py = 10\<rparr>, \<lparr>px = 0, py = 10\<rparr>] \<and>
   isPointInPolygon \<lparr>px = 2, py = 2\<rparr> slantTriangle \<and>
   isPointInPolygon \<lparr>px = 6, py = 3\<rparr> slantTriangle \<and>
   \<not> isPointInPolygon \<lparr>px = 6, py = 5\<rparr> slantTriangle \<and>
   \<not> isPointInPolygon \<lparr>px = 8, py = 8\<rparr> slantTriangle \<and>
   isPointInPolygon \<lparr>px = 2, py = 7\<rparr> ellPolygon \<and>
   isPointInPolygon \<lparr>px = 7, py = 2\<rparr> ellPolygon \<and>
   \<not> isPointInPolygon \<lparr>px = 7, py = 7\<rparr> ellPolygon"
proof -
  have sq: "isPointInPolygon \<lparr>px = 5, py = 5\<rparr>
     [\<lparr>px = 0, py = 0\<rparr>, \<lparr>px = 10, py = 0\<rparr>, \<lparr>px = 10, py = 10\<rparr>, \<lparr>px = 0, py = 10\<rparr>]"
    "\<not> isPointInPolygon \<lparr>px = 15, py = 5\<rparr>
     [\<lparr>px = 0, py = 0\<rparr>, \<lparr>px = 10, py = 0\<rparr>, \<lparr>px = 10, py = 10\<rparr>, \<lparr>px = 0, py = 10\<rparr>]"
    by (simp_all add: polygon_eval)
  have tri: "isPointInPolygon \<lparr>px = 2, py = 2\<rparr> slantTriangle"
    "isPointInPolygon \<lparr>px = 6, py = 3\<rparr> slantTriangle"
    "\<not> isPointInPolygon \<lparr>px = 6, py = 5\<rparr> slantTriangle"
    "\<not> isPointInPolygon \<lparr>px = 8, py = 8\<rparr> slantTriangle"
    by (simp_all add: polygon_eval slantTriangle_def)
  have ell: "isPointInPolygon \<lparr>px = 2, py = 7\<rparr> ellPolygon"
    "isPointInPolygon \<lparr>px = 7, py = 2\<rparr> ellPolygon"
    "\<not> isPointInPolygon \<lparr>px = 7, py = 7\<rparr> ellPolygon"
    by (simp_all add: polygon_eval ellPolygon_def)
  have short: "length vs < 3 \<longrightarrow> \<not> isPointInPolygon p vs"
    by (simp add: isPointInPolygon_def)
  show ?thesis
    using short intersect_crossesRay [of p a b] isPointInPolygon_crossings [of p vs] sq tri ell
    by blast
qed

text \<open>
  The theorem at a two-point polygon, at the slanted edge of the triangle, which the
  ray from (6,3) crosses at (7,3) and the ray from (6,5) does not reach, and the
  single crossing that puts (6,3) inside the triangle.
\<close>

theorem isPointInPolygon_spec_witness:
  "length [\<lparr>px = 0, py = 0\<rparr>, \<lparr>px = 10, py = 0\<rparr>] < 3 \<and>
   \<not> isPointInPolygon \<lparr>px = 5, py = 0\<rparr> [\<lparr>px = 0, py = 0\<rparr>, \<lparr>px = 10, py = 0\<rparr>] \<and>
   crossesRay \<lparr>px = 6, py = 3\<rparr> \<lparr>px = 0, py = 10\<rparr> \<lparr>px = 10, py = 0\<rparr> \<and>
   \<not> crossesRay \<lparr>px = 6, py = 5\<rparr> \<lparr>px = 0, py = 10\<rparr> \<lparr>px = 10, py = 0\<rparr> \<and>
   crossings \<lparr>px = 6, py = 3\<rparr> slantTriangle = 1 \<and>
   isPointInPolygon \<lparr>px = 6, py = 3\<rparr> slantTriangle"
proof -
  note inst = isPointInPolygon_spec [of "[\<lparr>px = 0, py = 0\<rparr>, \<lparr>px = 10, py = 0\<rparr>]"
      "\<lparr>px = 5, py = 0\<rparr>" "\<lparr>px = 0, py = 0\<rparr>" "\<lparr>px = 10, py = 0\<rparr>"]
  have short: "\<not> isPointInPolygon \<lparr>px = 5, py = 0\<rparr> [\<lparr>px = 0, py = 0\<rparr>, \<lparr>px = 10, py = 0\<rparr>]"
    using inst by simp
  have e1: "crossesRay \<lparr>px = 6, py = 3\<rparr> \<lparr>px = 0, py = 10\<rparr> \<lparr>px = 10, py = 0\<rparr>"
    using isPointInPolygon_spec [of "[]" "\<lparr>px = 6, py = 3\<rparr>" "\<lparr>px = 0, py = 10\<rparr>" "\<lparr>px = 10, py = 0\<rparr>"]
    by (simp add: intersect_def)
  have e2: "\<not> crossesRay \<lparr>px = 6, py = 5\<rparr> \<lparr>px = 0, py = 10\<rparr> \<lparr>px = 10, py = 0\<rparr>"
    using isPointInPolygon_spec [of "[]" "\<lparr>px = 6, py = 5\<rparr>" "\<lparr>px = 0, py = 10\<rparr>" "\<lparr>px = 10, py = 0\<rparr>"]
    by (simp add: intersect_def)
  have c: "crossings \<lparr>px = 6, py = 3\<rparr> slantTriangle = 1"
    by (simp add: crossings_def closedEdges_def slantTriangle_def
        intersect_crossesRay [symmetric] intersect_def)
  have i: "isPointInPolygon \<lparr>px = 6, py = 3\<rparr> slantTriangle"
    using inst by simp
  show ?thesis using short e1 e2 c i by simp
qed

section \<open>Properties of the drag controller\<close>

lemma handlePointerMove_locked:
  assumes "constraint d = Some a"
  shows "fst (handlePointerMove svg (Some d) e) = Some d"
  using assms by (simp add: handlePointerMove_def Let_def split: option.splits)

lemma canvasStep_move_locked:
  assumes "dragState cv = Some d" and "constraint d = Some a"
  shows "dragState (canvasStep svg cv (PointerMove e)) = Some d"
  using handlePointerMove_locked [OF assms(2), of svg e] assms(1)
  by (simp add: deliver_def split: option.splits)

lemma canvasRun_moves_locked:
  "dragState cv = Some d \<Longrightarrow> constraint d = Some a \<Longrightarrow>
     dragState (canvasRun svg cv (map PointerMove es)) = Some d"
proof (induction es arbitrary: cv)
  case Nil
  then show ?case by (simp add: canvasRun_def)
next
  case (Cons e es)
  have "dragState (canvasStep svg cv (PointerMove e)) = Some d"
    using canvasStep_move_locked [OF Cons.prems] .
  then have "dragState (canvasRun svg (canvasStep svg cv (PointerMove e)) (map PointerMove es)) = Some d"
    using Cons.IH Cons.prems(2) by blast
  then show ?case by (simp add: canvasRun_def)
qed

lemma handlePointerMove_decides:
  assumes "constraint d = None" and "altKey e"
    and "\<bar>clientX e - startX d\<bar> > 5 \<or> \<bar>clientY e - startY d\<bar> > 5"
  shows "fst (handlePointerMove svg (Some d) e) =
     Some (d\<lparr>constraint := Some (if \<bar>clientX e - startX d\<bar> > \<bar>clientY e - startY d\<bar>
                                    then AxisX else AxisY)\<rparr>)"
  using assms by (auto simp add: handlePointerMove_def Let_def split: option.splits)

lemma handlePointerMove_undecided:
  assumes "constraint d = None"
    and "\<not> altKey e \<or> (\<bar>clientX e - startX d\<bar> \<le> 5 \<and> \<bar>clientY e - startY d\<bar> \<le> 5)"
  shows "fst (handlePointerMove svg (Some d) e) = Some d"
  using assms by (auto simp add: handlePointerMove_def Let_def split: option.splits)

lemma handlePointerMove_locked_y:
  assumes "constraint d = Some AxisY"
  shows "snd (handlePointerMove (Some rect) (Some d) e) =
     Some (Report (d_type d) (d_id d) (max 0 (min SVG_WIDTH (initialItemX d)))
             (max 0 (min SVG_HEIGHT (initialItemY d + (clientY e - startY d) * (SVG_HEIGHT / r_height rect)))) False)"
  using assms by (simp add: handlePointerMove_def Let_def)

lemma handlePointerMove_locked_x:
  assumes "constraint d = Some AxisX"
  shows "snd (handlePointerMove (Some rect) (Some d) e) =
     Some (Report (d_type d) (d_id d) 
             (max 0 (min SVG_WIDTH (initialItemX d + (clientX e - startX d) * (SVG_WIDTH / r_width rect))))
             (max 0 (min SVG_HEIGHT (initialItemY d))) False)"
  using assms by (simp add: handlePointerMove_def Let_def)

lemma dragExample_start: "dragState (dragExample k) = Some (dragStart k)"
  by (simp add: dragExample_def handlePointerDown_def dragStart_def)

lemma example_move1:
  "handlePointerMove (Some rect) (Some (dragStart k)) \<lparr>clientX = 100, clientY = 150, altKey = True\<rparr>
     = (Some ((dragStart k)\<lparr>constraint := Some AxisY\<rparr>),
        Some (Report VertexTarget k 100 (exampleY rect 150) False))"
  by (simp add: handlePointerMove_def dragStart_def exampleY_def SVG_WIDTH_def)

lemma example_move2:
  "handlePointerMove (Some rect) (Some ((dragStart k)\<lparr>constraint := Some AxisY\<rparr>))
       \<lparr>clientX = x2, clientY = y2, altKey = alt2\<rparr>
     = (Some ((dragStart k)\<lparr>constraint := Some AxisY\<rparr>),
        Some (Report VertexTarget k 100 (exampleY rect y2) False))"
  by (simp add: handlePointerMove_def dragStart_def exampleY_def SVG_WIDTH_def)

lemma example_cv1:
  "canvasStep (Some rect) (dragExample k) (PointerMove \<lparr>clientX = 100, clientY = 150, altKey = True\<rparr>)
    = \<lparr>dragState = Some ((dragStart k)\<lparr>constraint := Some AxisY\<rparr>),
       working = ([\<lparr>vx = 100, vy = exampleY rect 150, originalX = 100, originalY = 100, v_id = k\<rparr>], []),
       reported = [Report VertexTarget k 100 (exampleY rect 150) False]\<rparr>"
  by (simp add: dragExample_start example_move1 deliver_def)
     (simp add: dragExample_def applyReport_def)

lemma example_cv2:
  "canvasStep (Some rect) 
     \<lparr>dragState = Some ((dragStart k)\<lparr>constraint := Some AxisY\<rparr>),
       working = ([\<lparr>vx = 100, vy = y1, originalX = 100, originalY = 100, v_id = k\<rparr>], []),
       reported = rs\<rparr> (PointerMove \<lparr>clientX = x2, clientY = y2, altKey = alt2\<rparr>)
    = \<lparr>dragState = Some ((dragStart k)\<lparr>constraint := Some AxisY\<rparr>),
       working = ([\<lparr>vx = 100, vy = exampleY rect y2, originalX = 100, originalY = 100, v_id = k\<rparr>], []),
       reported = rs @ [Report VertexTarget k 100 (exampleY rect y2) False]\<rparr>"
  by (simp add: example_move2 deliver_def applyReport_def)

lemma example_cv3:
  "canvasStep svg
     \<lparr>dragState = Some ((dragStart k)\<lparr>constraint := Some AxisY\<rparr>),
       working = ([\<lparr>vx = 100, vy = y1, originalX = 100, originalY = 100, v_id = k\<rparr>], []),
       reported = rs\<rparr> PointerUp
    = \<lparr>dragState = None,
       working = ([\<lparr>vx = 100, vy = y1, originalX = 100, originalY = 100, v_id = k\<rparr>], []),
       reported = rs @ [Report VertexTarget k 100 y1 True]\<rparr>"
  by (simp add: handlePointerUp_def findVertex_def dragStart_def deliver_def applyReport_def)

lemma example_run:
  "canvasRun (Some rect) (dragExample k)
      [PointerMove \<lparr>clientX = 100, clientY = 150, altKey = True\<rparr>,
       PointerMove \<lparr>clientX = x2, clientY = y2, altKey = alt2\<rparr>,
       PointerUp]
    = \<lparr>dragState = None,
       working = ([\<lparr>vx = 100, vy = exampleY rect y2, originalX = 100, originalY = 100, v_id = k\<rparr>], []),
       reported = [Report VertexTarget k 100 (exampleY rect 150) False,
                   Report VertexTarget k 100 (exampleY rect y2) False,
                   Report VertexTarget k 100 (exampleY rect y2) True]\<rparr>"
  unfolding canvasRun_def foldl.simps example_cv1 example_cv2 example_cv3 by simp

text \<open>
  C7. With the modifier held and no lock yet, the first move whose distance from the
  start exceeds 5 in either axis sets the lock to the axis of the larger distance (Y on
  a tie); a move within the threshold leaves it undecided; once a lock is set no run
  of moves changes the drag state; under a Y lock the reported x is the (clamped)
  initial x whatever the pointer's x, and under an X lock likewise for y. In the
  example the lock is Y after the first move and every report, the final one included,
  has x = 100, for every second move.
\<close>

theorem axis_lock_decided_once:
  "(constraint d = None \<and> altKey e \<and>
      (\<bar>clientX e - startX d\<bar> > 5 \<or> \<bar>clientY e - startY d\<bar> > 5) \<longrightarrow>
      fst (handlePointerMove svg (Some d) e) =
        Some (d\<lparr>constraint := Some (if \<bar>clientX e - startX d\<bar> > \<bar>clientY e - startY d\<bar>
                                       then AxisX else AxisY)\<rparr>)) \<and>
   (constraint d = None \<and> \<bar>clientX e' - startX d\<bar> \<le> 5 \<and> \<bar>clientY e' - startY d\<bar> \<le> 5 \<longrightarrow>
      fst (handlePointerMove svg (Some d) e') = Some d) \<and>
   (dragState cv = Some dl \<and> constraint dl = Some a \<longrightarrow>
      dragState (canvasRun svg cv (map PointerMove es)) = Some dl) \<and>
   (constraint dy = Some AxisY \<longrightarrow>
      snd (handlePointerMove (Some rect) (Some dy) em) =
        Some (Report (d_type dy) (d_id dy) (max 0 (min SVG_WIDTH (initialItemX dy)))
               (max 0 (min SVG_HEIGHT
                  (initialItemY dy + (clientY em - startY dy) * (SVG_HEIGHT / r_height rect))))
               False)) \<and>
   (constraint dx = Some AxisX \<longrightarrow>
      snd (handlePointerMove (Some rect) (Some dx) em) =
        Some (Report (d_type dx) (d_id dx)
               (max 0 (min SVG_WIDTH
                  (initialItemX dx + (clientX em - startX dx) * (SVG_WIDTH / r_width rect))))
               (max 0 (min SVG_HEIGHT (initialItemY dx))) False)) \<and>
   map_option constraint
     (dragState (canvasStep (Some rect) (dragExample k)
        (PointerMove \<lparr>clientX = 100, clientY = 150, altKey = True\<rparr>))) = Some (Some AxisY) \<and>
   canvasRun (Some rect) (dragExample k)
      [PointerMove \<lparr>clientX = 100, clientY = 150, altKey = True\<rparr>,
       PointerMove \<lparr>clientX = x2, clientY = y2, altKey = alt2\<rparr>,
       PointerUp]
    = \<lparr>dragState = None,
       working = ([\<lparr>vx = 100, vy = exampleY rect y2, originalX = 100, originalY = 100, v_id = k\<rparr>], []),
       reported = [Report VertexTarget k 100 (exampleY rect 150) False,
                   Report VertexTarget k 100 (exampleY rect y2) False,
                   Report VertexTarget k 100 (exampleY rect y2) True]\<rparr>"
proof -
  have "constraint d = None \<and> \<bar>clientX e' - startX d\<bar> \<le> 5 \<and> \<bar>clientY e' - startY d\<bar> \<le> 5 \<longrightarrow>
      fst (handlePointerMove svg (Some d) e') = Some d"
    using handlePointerMove_undecided [of d e' svg] by blast
  moreover have "map_option constraint
     (dragState (canvasStep (Some rect) (dragExample k)
        (PointerMove \<lparr>clientX = 100, clientY = 150, altKey = True\<rparr>))) = Some (Some AxisY)"
    by (simp only: example_cv1) simp
  ultimately show ?thesis
    using handlePointerMove_decides [of d e svg] canvasRun_moves_locked [of cv dl a svg es]
      handlePointerMove_locked_y [of dy rect em] handlePointerMove_locked_x [of dx rect em]
      example_run [of rect k x2 y2 alt2]
    by blast
qed

text \<open>
  The theorem on a canvas rendered at half size: the decision at the first move of the
  example, an undecided small move, the lock kept over two further moves, and the
  reports under a Y lock and under an X lock.
\<close>

theorem axis_lock_decided_once_witness:
  "constraint (dragStart 0) = None \<and>
   fst (handlePointerMove None (Some (dragStart 0)) \<lparr>clientX = 100, clientY = 150, altKey = True\<rparr>)
     = Some ((dragStart 0)\<lparr>constraint := Some AxisY\<rparr>) \<and>
   fst (handlePointerMove None (Some (dragStart 0)) \<lparr>clientX = 103, clientY = 98, altKey = True\<rparr>)
     = Some (dragStart 0) \<and>
   dragState (canvasRun None
       \<lparr>dragState = Some ((dragStart 0)\<lparr>constraint := Some AxisY\<rparr>), working = ([], []), reported = []\<rparr>
       (map PointerMove [\<lparr>clientX = 130, clientY = 155, altKey = True\<rparr>,
                         \<lparr>clientX = 300, clientY = 100, altKey = True\<rparr>]))
     = Some ((dragStart 0)\<lparr>constraint := Some AxisY\<rparr>) \<and>
   snd (handlePointerMove (Some \<lparr>r_left = 0, r_top = 0, r_width = 500, r_height = 1000\<rparr>)
          (Some ((dragStart 0)\<lparr>constraint := Some AxisY\<rparr>))
          \<lparr>clientX = 130, clientY = 155, altKey = True\<rparr>)
     = Some (Report VertexTarget 0 100 210 False) \<and>
   snd (handlePointerMove (Some \<lparr>r_left = 0, r_top = 0, r_width = 500, r_height = 1000\<rparr>)
          (Some ((dragStart 0)\<lparr>constraint := Some AxisX\<rparr>))
          \<lparr>clientX = 130, clientY = 155, altKey = True\<rparr>)
     = Some (Report VertexTarget 0 160 100 False)"
  using axis_lock_decided_once [where d = "dragStart 0"
      and e = "\<lparr>clientX = 100, clientY = 150, altKey = True\<rparr>"
      and svg = None
      and e' = "\<lparr>clientX = 103, clientY = 98, altKey = True\<rparr>"
      and cv = "\<lparr>dragState = Some ((dragStart 0)\<lparr>constraint := Some AxisY\<rparr>),
                 working = ([], []), reported = []\<rparr>"
      and dl = "(dragStart 0)\<lparr>constraint := Some AxisY\<rparr>"
      and a = AxisY
      and es = "[\<lparr>clientX = 130, clientY = 155, altKey = True\<rparr>,
                 \<lparr>clientX = 300, clientY = 100, altKey = True\<rparr>]"
      and dy = "(dragStart 0)\<lparr>constraint := Some AxisY\<rparr>"
      and rect = "\<lparr>r_left = 0, r_top = 0, r_width = 500, r_height = 1000\<rparr>"
      and em = "\<lparr>clientX = 130, clientY = 155, altKey = True\<rparr>"
      and dx = "(dragStart 0)\<lparr>constraint := Some AxisX\<rparr>"
      and k = 0 and ?x2.0 = 130 and ?y2.0 = 155 and ?alt2.0 = True]
  by (simp add: dragStart_def SVG_WIDTH_def SVG_HEIGHT_def)

section \<open>Properties of cell painting\<close>

text \<open>
  C6. With a mask of at least three points, a click on a cell whose centre lies outside
  the mask polygon is answered by the alert and returns the component state as it was:
  no snapshot is pushed and no cell is changed. The centre is the mean of the four
  corners' current positions \<open>vx\<close>, \<open>vy\<close> in the working copy of the vertices.
\<close>

theorem paint_outside_mask_rejected:
  "(currentState (hist app) = Some state \<and>
    findIndex (\<lambda>c. c_id c = cid) (cells state) = Some i \<and>
    3 \<le> length (boundaryPoints state) \<and>
    getCellCenter (cells state ! i) (localVertices app) = Some center \<and>
    \<not> isPointInPolygon center (boundaryPoints state) \<longrightarrow>
      handleCellClick cid app = (app, Alert ''Cannot paint outside the mask boundary.'')) \<and>
   (v_indices cell = (i0, i1, i2, i3) \<and>
    i0 < length vs \<and> i1 < length vs \<and> i2 < length vs \<and> i3 < length vs \<longrightarrow>
      getCellCenter cell vs =
        Some \<lparr>px = (vx (vs ! i0) + vx (vs ! i1) + vx (vs ! i2) + vx (vs ! i3)) / 4,
              py = (vy (vs ! i0) + vy (vs ! i1) + vy (vs ! i2) + vy (vs ! i3)) / 4\<rparr>)"
  by (simp add: handleCellClick_def getCellCenter_def js_get_def)

lemma maskedApp_current: "currentState (hist maskedApp) = Some maskedState"
  by (simp add: maskedApp_def useHistory_def currentState_def)

lemma maskedApp_center:
  "getCellCenter oneCell draggedSquare = Some \<lparr>px = 25, py = 25\<rparr>"
  by (simp add: oneCell_def draggedSquare_def getCellCenter_def js_get_def)

lemma maskedApp_outside: "\<not> isPointInPolygon \<lparr>px = 25, py = 25\<rparr> maskSquare"
  by (simp add: maskSquare_def isPointInPolygon_def polyStep_def intersect_def upt_rec)

lemma maskedApp_rest_inside: "isPointInPolygon \<lparr>px = 5, py = 5\<rparr> maskSquare"
  by (simp add: maskSquare_def isPointInPolygon_def polyStep_def intersect_def upt_rec)

text \<open>
  The theorem on the small editor: the cell's corners rest around (5,5), inside the
  mask, but their current centre (25,25) is outside, and the click is rejected.
\<close>

theorem paint_outside_mask_rejected_witness:
  "currentState (hist maskedApp) = Some maskedState \<and>
   3 \<le> length (boundaryPoints maskedState) \<and>
   getCellCenter oneCell draggedSquare = Some \<lparr>px = 25, py = 25\<rparr> \<and>
   \<not> isPointInPolygon \<lparr>px = 25, py = 25\<rparr> maskSquare \<and>
   handleCellClick 0 maskedApp = (maskedApp, Alert ''Cannot paint outside the mask boundary.'')"
proof -
  have idx: "findIndex (\<lambda>c. c_id c = 0) (cells maskedState) = Some 0"
    by (simp add: maskedState_def oneCell_def)
  have cell: "cells maskedState ! 0 = oneCell" "localVertices maskedApp = draggedSquare"
    "boundaryPoints maskedState = maskSquare"
    by (simp_all add: maskedState_def maskedApp_def)
  have len: "3 \<le> length (boundaryPoints maskedState)"
    by (simp add: maskedState_def maskSquare_def)
  show ?thesis
    using maskedApp_current maskedApp_center maskedApp_outside idx cell len
      paint_outside_mask_rejected [where app = maskedApp and state = maskedState and cid = 0
        and i = 0 and center = "\<lparr>px = 25, py = 25\<rparr>" and cell = oneCell
        and ?i0.0 = 0 and ?i1.0 = 1 and ?i2.0 = 2 and ?i3.0 = 3 and vs = draggedSquare]
    by simp
qed

section \<open>Properties of grid generation\<close>

lemma push_copies:
  "foldl (\<lambda>ws i. ws @ [w]) ws0 [0 ..< n] = ws0 @ replicate n w"
  by (induction n) (simp_all add: replicate_append_same)

lemma stripStep_eq:
  "stripStep area safe m st c =
     (fst st @ replicate (multiplier m c) (area / safe / real (multiplier m c)), snd st + multiplier m c)"
  by (simp add: stripStep_def Let_def push_copies)

lemma multiplier_pos: "0 < multiplier m c"
  by (simp add: multiplier_def split: option.splits)

lemma strips_fold_length:
  "length (fst (foldl (stripStep area safe m) st cs)) = length (fst st) + sum_list (map (multiplier m) cs)
   \<and> snd (foldl (stripStep area safe m) st cs) = snd st + sum_list (map (multiplier m) cs)"
  by (induction cs arbitrary: st) (simp_all add: stripStep_eq)

lemma strips_fold_sum:
  "sum_list (fst (foldl (stripStep area safe m) st cs)) = sum_list (fst st) + real (length cs) * (area / safe)"
proof (induction cs arbitrary: st)
  case Nil
  then show ?case by simp
next
  case (Cons c cs)
  have one: "real (multiplier m c) * (area / safe / real (multiplier m c)) = area / safe"
    using multiplier_pos [of m c] by simp
  have "sum_list (fst (stripStep area safe m st c)) = sum_list (fst st) + area / safe"
    unfolding stripStep_eq using one by (simp add: sum_list_replicate)
  then show ?case by (simp add: Cons.IH algebra_simps)
qed

lemma strips_points: "snd (strips area safe m) = sum_list (map (multiplier m) (countTo safe)) + 1"
  by (simp add: strips_def Let_def strips_fold_length)

lemma strips_length: "snd (strips area safe m) = Suc (length (fst (strips area safe m)))"
  by (simp add: strips_def Let_def strips_fold_length)

lemma strips_sum: "sum_list (fst (strips area safe m)) = real (length (countTo safe)) * (area / safe)"
  by (simp add: strips_def Let_def strips_fold_sum)

lemma countTo_nat: "0 < n \<Longrightarrow> countTo (safeCount (Num (real n))) = [0 ..< n]"
  by (simp add: countTo_def safeCount_def max_def) 

lemma safeCount_nat: "0 < n \<Longrightarrow> safeCount (Num (real n)) = real n"
  by (auto simp add: safeCount_def max_def) 

lemma safeCount_coerced: "b = NaN \<or> (\<exists>v. b = Num v \<and> v \<le> 0) \<Longrightarrow> safeCount b = 1"
  by (auto simp: safeCount_def)

text \<open>The vertex loops never read outside the width arrays and emit one vertex per round.\<close>

lemma advance_in_range: "k \<le> length ws \<Longrightarrow> \<exists>v. advance ws cur k = Some v"
  by (auto simp: advance_def js_get_def)

lemma colStep_Some:
  "advance ws cx c = Some x \<Longrightarrow>
     colStep ws y (Some (cx, k, vs)) c =
       Some (if c < length ws then x else cx, k + 1,
             vs @ [\<lparr>vx = x, vy = y, originalX = x, originalY = y, v_id = k\<rparr>])"
  by (simp add: colStep_def)

lemma rowStep_Some:
  "advance hs cy r = Some y \<Longrightarrow>
   foldl (colStep ws y) (Some (GRID_MARGIN, k, vs)) [0 ..< tx] = Some (cx, k', vs') \<Longrightarrow>
     rowStep ws hs tx (Some (cy, k, vs)) r = Some (if r < length hs then y else cy, k', vs')"
  by (simp add: rowStep_def)


lemma colStep_fold:
  "n \<le> length ws + 1 \<Longrightarrow>
     \<exists>cx row. foldl (colStep ws y) (Some (x0, k, vs)) [0 ..< n] = Some (cx, k + n, vs @ row) \<and> length row = n"
proof (induction n)
  case 0
  then show ?case by simp
next
  case (Suc n)
  then obtain cx row where ih: "foldl (colStep ws y) (Some (x0, k, vs)) [0 ..< n] = Some (cx, k + n, vs @ row)" "length row = n"
    by auto
  obtain v where v: "advance ws cx n = Some v"
    using advance_in_range [of n ws cx] Suc.prems by auto
  show ?case using ih colStep_Some [OF v, of y "k + n" "vs @ row"] by simp
qed

lemma rowStep_fold:
  "n \<le> length hs + 1 \<Longrightarrow> tx \<le> length ws + 1 \<Longrightarrow>
     \<exists>cy out. foldl (rowStep ws hs tx) (Some (y0, k, vs)) [0 ..< n] = Some (cy, k + n * tx, vs @ out) \<and> length out = n * tx"
proof (induction n)
  case 0
  then show ?case by simp
next
  case (Suc n)
  then obtain cy out where ih: "foldl (rowStep ws hs tx) (Some (y0, k, vs)) [0 ..< n] = Some (cy, k + n * tx, vs @ out)" "length out = n * tx"
    by auto
  obtain y where y: "advance hs cy n = Some y"
    using advance_in_range [of n hs cy] Suc.prems by auto
  obtain cx row where row: "foldl (colStep ws y) (Some (GRID_MARGIN, k + n * tx, vs @ out)) [0 ..< tx] = Some (cx, k + n * tx + tx, (vs @ out) @ row)" "length row = tx"
    using colStep_fold [of tx ws y GRID_MARGIN "k + n * tx" "vs @ out"] Suc.prems by auto
  show ?case using ih rowStep_Some [OF y row(1)] row(2) by (simp add: add.commute add.left_commute)
qed

lemma genVertices_defined:
  assumes "ty \<le> length hs + 1" and "tx \<le> length ws + 1"
  shows "\<exists>vs. genVertices ws hs tx ty = Some vs \<and> length vs = ty * tx"
  using rowStep_fold [OF assms, of GRID_MARGIN 0 "[]"] by (auto simp: genVertices_def)

text \<open>The cell loops: one cell per round, with the corner ids of its row and column.\<close>

lemma cellStep_pair:
  "cellStep tx r (k, cs) c =
     (k + 1, cs @ [\<lparr>c_id = k, v_indices = cornerIds tx r c, color = None, isFilled = False\<rparr>])"
  by (simp add: cellStep_def cornerIds_def Let_def)

lemma cellRow_fold:
  "\<exists>row. foldl (cellStep tx r) (k, cs) [0 ..< n] = (k + n, cs @ row) \<and> length row = n
     \<and> (\<forall>cell \<in> set row. \<exists>j < n. freshCell tx r j cell)"
proof (induction n)
  case 0
  then show ?case by simp
next
  case (Suc n)
  then obtain row where ih: "foldl (cellStep tx r) (k, cs) [0 ..< n] = (k + n, cs @ row)" "length row = n"
    "\<forall>cell \<in> set row. \<exists>j < n. freshCell tx r j cell" by blast
  let ?new = "\<lparr>c_id = k + n, v_indices = cornerIds tx r n, color = None, isFilled = False\<rparr>"
  have fold: "foldl (cellStep tx r) (k, cs) [0 ..< Suc n] = (k + Suc n, cs @ (row @ [?new]))"
    using ih(1) by (simp add: cellStep_pair)
  have "\<forall>cell \<in> set (row @ [?new]). \<exists>j < Suc n. freshCell tx r j cell"
  proof
    fix cell assume "cell \<in> set (row @ [?new])"
    then consider "cell \<in> set row" | "cell = ?new" by auto
    then show "\<exists>j < Suc n. freshCell tx r j cell"
    proof cases
      case 1
      then show ?thesis using ih(3) less_Suc_eq by blast
    next
      case 2
      then have "freshCell tx r n cell" by (simp add: freshCell_def)
      then show ?thesis by blast
    qed
  qed
  then show ?case using fold ih(2) by (metis length_append_singleton)
qed

lemma cellRows_fold:
  "\<exists>out. foldl (\<lambda>st r. foldl (cellStep tx r) st [0 ..< ac]) (k, cs) [0 ..< n] = (k + n * ac, cs @ out)
     \<and> length out = n * ac
     \<and> (\<forall>cell \<in> set out. \<exists>r < n. \<exists>j < ac. freshCell tx r j cell)"
proof (induction n)
  case 0
  then show ?case by simp
next
  case (Suc n)
  then obtain out where ih: "foldl (\<lambda>st r. foldl (cellStep tx r) st [0 ..< ac]) (k, cs) [0 ..< n] = (k + n * ac, cs @ out)"
    "length out = n * ac" "\<forall>cell \<in> set out. \<exists>r < n. \<exists>j < ac. freshCell tx r j cell" by blast
  obtain row where row: "foldl (cellStep tx n) (k + n * ac, cs @ out) [0 ..< ac] = (k + n * ac + ac, (cs @ out) @ row)"
    "length row = ac" "\<forall>cell \<in> set row. \<exists>j < ac. freshCell tx n j cell"
    using cellRow_fold [of tx n "k + n * ac" "cs @ out" ac] by blast
  have fold: "foldl (\<lambda>st r. foldl (cellStep tx r) st [0 ..< ac]) (k, cs) [0 ..< Suc n] = (k + Suc n * ac, cs @ (out @ row))"
    using ih(1) row(1) by (simp add: add.commute add.left_commute)
  have len: "length (out @ row) = Suc n * ac" using ih(2) row(2) by simp
  have "\<forall>cell \<in> set (out @ row). \<exists>r < Suc n. \<exists>j < ac. freshCell tx r j cell"
  proof
    fix cell assume "cell \<in> set (out @ row)"
    then consider "cell \<in> set out" | "cell \<in> set row" by auto
    then show "\<exists>r < Suc n. \<exists>j < ac. freshCell tx r j cell"
    proof cases
      case 1
      then show ?thesis using ih(3) less_Suc_eq by blast
    next
      case 2
      then show ?thesis using row(3) by blast
    qed
  qed
  then show ?case using fold len by blast
qed

lemma genCells_props:
  "length (genCells tx ty) = (ty - 1) * (tx - 1) \<and>
   (\<forall>cell \<in> set (genCells tx ty). \<exists>r < ty - 1. \<exists>j < tx - 1. freshCell tx r j cell)"
  using cellRows_fold [of tx "tx - 1" 0 "[]" "ty - 1"] by (auto simp: genCells_def Let_def)

lemma cornerIds_bound:
  assumes "r < ty - 1" and "j < tx - 1" and "cornerIds tx r j = (a, b, c, d)"
  shows "a < ty * tx \<and> b < ty * tx \<and> c < ty * tx \<and> d < ty * tx"
proof -
  have "(r + 1) * tx \<le> (ty - 1) * tx" using assms(1) by (intro mult_le_mono1) simp
  moreover have "(ty - 1) * tx + tx = ty * tx" using assms(1) by (cases ty) simp_all
  moreover have "r * tx \<le> (r + 1) * tx" by simp
  ultimately show ?thesis using assms(2,3) by (auto simp: cornerIds_def)
qed


lemma generateGrid_defined:
  "\<exists>g. generateGrid bc br rules = Some g \<and>
       length (g_vertices g) = snd (rowStrips br rules) * snd (colStrips bc rules) \<and>
       g_cells g = genCells (snd (colStrips bc rules)) (snd (rowStrips br rules))"
proof -
  have "snd (rowStrips br rules) \<le> length (fst (rowStrips br rules)) + 1"
    and "snd (colStrips bc rules) \<le> length (fst (colStrips bc rules)) + 1"
    by (simp_all add: rowStrips_def colStrips_def strips_length)
  then obtain vs where "genVertices (fst (colStrips bc rules)) (fst (rowStrips br rules))
        (snd (colStrips bc rules)) (snd (rowStrips br rules)) = Some vs"
      "length vs = snd (rowStrips br rules) * snd (colStrips bc rules)"
    using genVertices_defined by blast
  then show ?thesis by (simp add: generateGrid_def Let_def)
qed

lemma multiplier_spec:
  "positiveUpTo m n \<Longrightarrow> map (multiplier m) [0 ..< n] = map (spec_multiplier m) [0 ..< n]"
  by (auto simp: positiveUpTo_def list_all_iff multiplier_def spec_multiplier_def split: option.splits)

lemma strips_points_spec:
  assumes "0 < n" and "positiveUpTo m n"
  shows "snd (strips area (safeCount (Num (real n))) m) = spec_totalPoints m n"
  using assms by (simp add: strips_points countTo_nat multiplier_spec spec_totalPoints_def)

lemma generateGrid_coerced:
  assumes "safeCount b = safeCount b'"
  shows "generateGrid b br rules = generateGrid b' br rules"
    and "generateGrid bc b rules = generateGrid bc b' rules"
  using assms by (simp_all add: generateGrid_def colStrips_def rowStrips_def)

text \<open>
  C3. For positive integer base counts and rules with positive multipliers,
  \<open>generateGrid\<close> returns a grid with totalXPoints * totalYPoints vertices and
  (totalXPoints - 1) * (totalYPoints - 1) cells, the point counts being the sums of the
  multipliers (1 when absent) plus one. A base count that is \<open>NaN\<close> or not positive is
  replaced by 1. For every input the function returns a grid.
\<close>

theorem generateGrid_counts:
  "(0 < nc \<and> 0 < nr \<and> positiveUpTo (cols rules) nc \<and> positiveUpTo (rows rules) nr \<longrightarrow>
     (\<exists>g. generateGrid (Num (real nc)) (Num (real nr)) rules = Some g \<and>
          length (g_vertices g) = spec_totalPoints (cols rules) nc * spec_totalPoints (rows rules) nr \<and>
          length (g_cells g) =
            (spec_totalPoints (cols rules) nc - 1) * (spec_totalPoints (rows rules) nr - 1))) \<and>
   (b = NaN \<or> (\<exists>v \<le> 0. b = Num v) \<longrightarrow>
      safeCount b = 1 \<and>
      generateGrid b br rules = generateGrid (Num 1) br rules \<and>
      generateGrid bc b rules = generateGrid bc (Num 1) rules) \<and>
   (\<exists>g. generateGrid bc br rules = Some g)"
proof -
  have counts: "\<exists>g. generateGrid (Num (real nc)) (Num (real nr)) rules = Some g \<and>
          length (g_vertices g) = spec_totalPoints (cols rules) nc * spec_totalPoints (rows rules) nr \<and>
          length (g_cells g) =
            (spec_totalPoints (cols rules) nc - 1) * (spec_totalPoints (rows rules) nr - 1)"
    if pos: "0 < nc" "0 < nr" and ok: "positiveUpTo (cols rules) nc" "positiveUpTo (rows rules) nr"
  proof -
    have tx: "snd (colStrips (Num (real nc)) rules) = spec_totalPoints (cols rules) nc"
      using pos(1) ok(1) by (simp add: colStrips_def strips_points_spec)
    have ty: "snd (rowStrips (Num (real nr)) rules) = spec_totalPoints (rows rules) nr"
      using pos(2) ok(2) by (simp add: rowStrips_def strips_points_spec)
    obtain g where g: "generateGrid (Num (real nc)) (Num (real nr)) rules = Some g"
      "length (g_vertices g) = snd (rowStrips (Num (real nr)) rules) * snd (colStrips (Num (real nc)) rules)"
      "g_cells g = genCells (snd (colStrips (Num (real nc)) rules)) (snd (rowStrips (Num (real nr)) rules))"
      using generateGrid_defined by blast
    have "length (g_cells g) = (spec_totalPoints (cols rules) nc - 1) * (spec_totalPoints (rows rules) nr - 1)"
      using g(3) genCells_props [of "spec_totalPoints (cols rules) nc" "spec_totalPoints (rows rules) nr"]
      by (simp add: tx ty mult.commute)
    then show ?thesis using g(1,2) by (simp add: tx ty mult.commute)
  qed
  have coerce: "safeCount b = 1 \<and>
      generateGrid b br rules = generateGrid (Num 1) br rules \<and>
      generateGrid bc b rules = generateGrid bc (Num 1) rules"
    if "b = NaN \<or> (\<exists>v \<le> 0. b = Num v)"
  proof -
    have "safeCount b = safeCount (Num 1)" using that by (auto simp: safeCount_def)
    then show ?thesis using generateGrid_coerced [of b "Num 1"] by (simp add: safeCount_def)
  qed
  show ?thesis using counts coerce generateGrid_defined [of bc br rules] by blast
qed

text \<open>
  The theorem at two columns and one row with the second column split in two
  (4 * 2 vertices, 3 * 1 cells), and at a \<open>NaN\<close> column count.
\<close>

theorem generateGrid_counts_witness:
  "(\<exists>g. generateGrid (Num 2) (Num 1) \<lparr>cols = [1 \<mapsto> 2], rows = Map.empty\<rparr> = Some g \<and>
        length (g_vertices g) = 8 \<and> length (g_cells g) = 3) \<and>
   generateGrid NaN (Num 1) \<lparr>cols = [1 \<mapsto> 2], rows = Map.empty\<rparr>
     = generateGrid (Num 1) (Num 1) \<lparr>cols = [1 \<mapsto> 2], rows = Map.empty\<rparr>"
proof -
  have p: "positiveUpTo [1 \<mapsto> 2] 2" "positiveUpTo Map.empty 1"
    by (simp_all add: positiveUpTo_def upt_rec)
  have t: "spec_totalPoints [1 \<mapsto> 2] 2 = 4" "spec_totalPoints Map.empty 1 = 2"
    by (simp_all add: spec_totalPoints_def spec_multiplier_def upt_rec)
  show ?thesis
    using p t generateGrid_counts [where nc = 2 and nr = 1
        and rules = "\<lparr>cols = [1 \<mapsto> 2], rows = Map.empty\<rparr>" and b = NaN
        and br = "Num 1" and bc = "Num 2"]
    by simp
qed

lemma strips_sum_span:
  assumes "safeCount b = real n"
  shows "sum_list (fst (strips area (safeCount b) m)) = area"
proof -
  have "1 \<le> safeCount b" by (simp add: safeCount_def)
  then have n: "0 < n" using assms by (cases n) simp_all
  have "countTo (safeCount b) = [0 ..< n]" by (simp add: assms countTo_def)
  then show ?thesis using n by (simp add: strips_sum assms)
qed

lemma generateGrid_corners:
  assumes "generateGrid bc br rules = Some g" and "cell \<in> set (g_cells g)"
  shows "cornersBelow (length (g_vertices g)) cell"
proof -
  let ?tx = "snd (colStrips bc rules)" and ?ty = "snd (rowStrips br rules)"
  have len: "length (g_vertices g) = ?ty * ?tx" and cs: "g_cells g = genCells ?tx ?ty"
    using generateGrid_defined [of bc br rules] assms(1) by auto
  obtain r j where rj: "r < ?ty - 1" "j < ?tx - 1" "freshCell ?tx r j cell"
    using genCells_props [of ?tx ?ty] assms(2) cs by auto
  obtain a b c d where abcd: "cornerIds ?tx r j = (a, b, c, d)" by (metis prod_cases4)
  show ?thesis
    using cornerIds_bound [OF rj(1,2) abcd] rj(3) abcd
    by (simp add: cornersBelow_def freshCell_def len)
qed

lemma generateGrid_cornerIds:
  assumes "generateGrid bc br rules = Some g" and "cell \<in> set (g_cells g)"
  shows "\<exists>r j. v_indices cell = cornerIds (snd (colStrips bc rules)) r j"
proof -
  have "g_cells g = genCells (snd (colStrips bc rules)) (snd (rowStrips br rules))"
    using generateGrid_defined [of bc br rules] assms(1) by auto
  then obtain r j where "freshCell (snd (colStrips bc rules)) r j cell"
    using genCells_props [of "snd (colStrips bc rules)" "snd (rowStrips br rules)"] assms(2)
    by auto
  then show ?thesis by (auto simp: freshCell_def)
qed

text \<open>
  C5. In every grid that \<open>generateGrid\<close> returns, the four corner ids of each cell are
  positions of the returned vertex array and are the ids \<open>row * stride + column\<close> of a
  row and a column, the stride being the number of points of a row. When the sanitised base count of an axis is a
  whole number, the strip widths of that axis add up to the drawable span (the SVG size
  minus twice the margin). One logical division contributes \<open>multiplier\<close> strips of
  width (span / count) / multiplier, which add up to the undivided width span / count.
\<close>

theorem generateGrid_corners_and_span:
  "(generateGrid bc br rules = Some g \<longrightarrow>
      (\<forall>cell \<in> set (g_cells g).
          cornersBelow (length (g_vertices g)) cell \<and>
          (\<exists>r j. v_indices cell = cornerIds (snd (colStrips bc rules)) r j))) \<and>
   (safeCount bc = real nc \<longrightarrow>
      sum_list (fst (colStrips bc rules)) = SVG_WIDTH - 2 * GRID_MARGIN) \<and>
   (safeCount br = real nr \<longrightarrow>
      sum_list (fst (rowStrips br rules)) = SVG_HEIGHT - 2 * GRID_MARGIN) \<and>
   fst (stripStep area safe m (ws, t) c) =
      ws @ replicate (multiplier m c) (area / safe / real (multiplier m c)) \<and>
   sum_list (replicate (multiplier m c) (area / safe / real (multiplier m c))) = area / safe"
proof -
  have "sum_list (replicate (multiplier m c) (area / safe / real (multiplier m c))) = area / safe"
    using multiplier_pos [of m c] by (simp add: sum_list_replicate)
  then show ?thesis
    using generateGrid_corners [of bc br rules g] generateGrid_cornerIds [of bc br rules g]
      strips_sum_span [of bc nc, of "SVG_WIDTH - 2 * GRID_MARGIN" "cols rules"]
      strips_sum_span [of br nr, of "SVG_HEIGHT - 2 * GRID_MARGIN" "rows rules"]
      stripStep_eq [of area safe m "(ws, t)" c]
    unfolding colStrips_def [symmetric] rowStrips_def [symmetric]
    by auto
qed

lemma splitGrid_colStrips: "colStrips (Num 2) splitRules = ([450, 225, 225], 4)"
  by (simp add: splitRules_def colStrips_def strips_def stripStep_def countTo_def safeCount_def
      multiplier_def SVG_WIDTH_def GRID_MARGIN_def Let_def upt_rec)

lemma splitGrid_rowStrips: "rowStrips NaN splitRules = ([1900], 2)"
  by (simp add: splitRules_def rowStrips_def strips_def stripStep_def countTo_def safeCount_def
      multiplier_def SVG_HEIGHT_def GRID_MARGIN_def Let_def)

lemma splitGrid_vertices:
  "genVertices [450, 225, 225] [1900] 4 2 = Some (g_vertices splitGrid)"
  by (simp add: genVertices_def rowStep_def colStep_def advance_def js_get_def
      GRID_MARGIN_def upt_rec splitGrid_def)

lemma splitGrid_cells: "genCells 4 2 = g_cells splitGrid"
  by (simp add: genCells_def cellStep_def upt_rec Let_def splitGrid_def)

lemma splitGrid_generated: "generateGrid (Num 2) NaN splitRules = Some splitGrid"
  unfolding generateGrid_def splitGrid_colStrips splitGrid_rowStrips
  by (simp add: splitGrid_vertices splitGrid_cells)

text \<open>
  The theorem at the grid of two columns, the second split in two: the widths are 450,
  225 and 225, the last cell's corners are below the 8 vertices.
\<close>

theorem generateGrid_corners_and_span_witness:
  "generateGrid (Num 2) NaN splitRules = Some splitGrid \<and>
   cornersBelow 8 \<lparr>c_id = 2, v_indices = (2, 3, 7, 6), color = None, isFilled = False\<rparr> \<and>
   safeCount (Num 2) = real 2 \<and>
   fst (colStrips (Num 2) splitRules) = [450, 225, 225] \<and>
   sum_list [450, 225, 225] = SVG_WIDTH - 2 * GRID_MARGIN \<and>
   safeCount NaN = real 1 \<and>
   sum_list (fst (rowStrips NaN splitRules)) = SVG_HEIGHT - 2 * GRID_MARGIN"
proof -
  have s: "safeCount (Num 2) = real 2" "safeCount NaN = real 1"
    by (simp_all add: safeCount_def)
  have c: "\<lparr>c_id = 2, v_indices = (2, 3, 7, 6), color = None, isFilled = False\<rparr> \<in> set (g_cells splitGrid)"
    "length (g_vertices splitGrid) = 8"
    by (simp_all add: splitGrid_def)
  show ?thesis
    using s c splitGrid_generated splitGrid_colStrips
      generateGrid_corners_and_span [where bc = "Num 2" and br = NaN and rules = splitRules
        and g = splitGrid and nc = 2 and nr = 1]
    by auto
qed

section \<open>The colour of unfilled cells\<close>

lemma pushState_history_subset:
  "set (history (pushState h x)) \<subseteq> insert x (set (history h))"
proof -
  have a: "set (slice0 (history h) (index h + 1)) \<subseteq> set (history h)"
    by (auto simp: slice0_def dest: in_set_takeD)
  have b: "set (shift ys) \<subseteq> set ys" for ys :: "'a list"
    by (cases ys) (auto simp: shift_def)
  show ?thesis
    using a b [of "slice0 (history h) (index h + 1) @ [x]"]
    by (auto simp: pushState_def Let_def)
qed

lemma histClean_pushState:
  assumes "histClean h" and "cellsClean (cells st)"
  shows "histClean (pushState h st)"
  using assms pushState_history_subset [of h st]
  by (auto simp: histClean_def list_all_iff)

lemma histClean_current:
  assumes "histClean h" and "currentState h = Some st"
  shows "cellsClean (cells st)"
proof -
  have "st \<in> set (history h)"
    using assms(2) by (auto simp: currentState_def split: if_splits)
  then show ?thesis using assms(1) by (simp add: histClean_def list_all_iff)
qed

lemma paintCell_clean: "isFilled (paintCell col c) \<or> color (paintCell col c) = None"
  by (simp add: paintCell_def)

lemma cellsClean_update:
  assumes "cellsClean cs"
  shows "cellsClean (cs[i := paintCell col (cs ! i)])"
  using assms paintCell_clean [of col "cs ! i"]
  by (auto simp: cellsClean_def list_all_iff dest!: set_update_subset_insert [THEN subsetD])

lemma histClean_commitPaint:
  assumes "histClean (hist app)" and "currentState (hist app) = Some st"
  shows "histClean (hist (commitPaint app st i))"
  using histClean_pushState [OF assms(1)] cellsClean_update [OF histClean_current [OF assms]]
  by (simp add: commitPaint_def Let_def)

lemma histClean_handleCellClick:
  assumes "histClean (hist app)"
  shows "histClean (hist (fst (handleCellClick cid app)))"
  using assms histClean_commitPaint [OF assms]
  by (auto simp: handleCellClick_def split: option.splits)

lemma genCells_clean: "cellsClean (genCells tx ty)"
proof -
  have "\<forall>cell \<in> set (genCells tx ty). color cell = None"
  proof
    fix cell assume "cell \<in> set (genCells tx ty)"
    then obtain r j where "freshCell tx r j cell"
      using genCells_props [of tx ty] by blast
    then show "color cell = None" by (simp add: freshCell_def)
  qed
  then show ?thesis by (simp add: cellsClean_def list_all_iff)
qed

lemma generateGrid_clean:
  assumes "generateGrid bc br rules = Some g"
  shows "cellsClean (g_cells g)"
  using generateGrid_defined [of bc br rules] assms genCells_clean by auto

lemma definedGrid_clean: "cellsClean (g_cells (definedGrid (generateGrid bc br rules)))"
  using generateGrid_defined [of bc br rules] generateGrid_clean [of bc br rules]
  by (auto simp: definedGrid_def)

lemma histClean_handleRegenerateGrid:
  assumes "histClean (hist app)"
  shows "histClean (hist (fst (handleRegenerateGrid config app)))"
  using assms histClean_pushState [OF assms] definedGrid_clean
  by (auto simp: handleRegenerateGrid_def Let_def split: option.splits)

lemma syncLocal_hist: "hist (syncLocal app) = hist app"
  by (simp add: syncLocal_def split: option.splits)

lemma histClean_nav: "histClean (undo h) = histClean h" "histClean (redo h) = histClean h"
  by (simp_all add: histClean_def undo_def redo_def)

lemma histClean_appStep:
  assumes "histClean (hist app)"
  shows "histClean (hist (appStep app a))"
  using assms histClean_handleCellClick histClean_handleRegenerateGrid
  by (cases a) (simp_all add: syncLocal_hist histClean_nav)

lemma histClean_appRun:
  "histClean (hist app) \<Longrightarrow> histClean (hist (appRun app acts))"
  unfolding appRun_def
  by (induction acts arbitrary: app) (simp_all add: histClean_appStep)

lemma histClean_initialApp: "histClean (hist initialApp)"
  by (simp add: initialApp_def useHistory_def histClean_def INITIAL_STATE_def Let_def definedGrid_clean)

text \<open>
  C10. The cells that \<open>generateGrid\<close> returns are all unfilled without colour; the
  paint toggle keeps the invariant "an unfilled cell has no colour" on the cell list;
  the click handler keeps it on every snapshot of the history; and every state that
  clicks, colour choices, regenerations, undo and redo reach from the initial editor
  satisfies it, in all snapshots and in the current one.
\<close>

theorem unfilled_cells_have_no_color:
  "(generateGrid bc br rules = Some g \<longrightarrow> cellsClean (g_cells g)) \<and>
   (cellsClean cs \<longrightarrow> cellsClean (cs[i := paintCell col (cs ! i)])) \<and>
   (histClean (hist app) \<longrightarrow> histClean (hist (fst (handleCellClick cid app)))) \<and>
   histClean (hist (appRun initialApp acts)) \<and>
   (currentState (hist (appRun initialApp acts)) = Some st \<longrightarrow> cellsClean (cells st))"
  using generateGrid_clean [of bc br rules g] cellsClean_update [of cs i col]
    histClean_handleCellClick [of app cid] histClean_appRun [OF histClean_initialApp, of acts]
    histClean_current [of "hist (appRun initialApp acts)" st]
  by blast


lemma plainApp_click:
  "handleCellClick 0 plainApp =
     (plainApp\<lparr>hist := \<lparr>history =
        [maskedState\<lparr>boundaryPoints := []\<rparr>,
         maskedState\<lparr>boundaryPoints := [],
                     cells := [oneCell\<lparr>isFilled := True, color := Some ''#888888''\<rparr>]\<rparr>],
        index = 1\<rparr>\<rparr>, Quiet)"
  by (simp add: handleCellClick_def plainApp_def useHistory_def currentState_def maskedState_def
      oneCell_def commitPaint_def paintCell_def pushState_def slice0_def Let_def)

lemma plainApp_click_twice:
  "map (\<lambda>st. map (\<lambda>c. (isFilled c, color c)) (cells st))
     (history (hist (appRun plainApp [CellClick 0, CellClick 0]))) =
   [[(False, None)], [(True, Some ''#888888'')], [(False, None)]]"
  by (simp add: appRun_def plainApp_click syncLocal_def)
     (simp add: handleCellClick_def plainApp_def currentState_def maskedState_def
      oneCell_def commitPaint_def paintCell_def pushState_def slice0_def Let_def)

text \<open>
  The theorem on the split grid and on the one-cell editor: the first click fills the
  cell with the palette colour, the second click with the same colour clears both the
  flag and the colour.
\<close>

theorem unfilled_cells_have_no_color_witness:
  "generateGrid (Num 2) NaN splitRules = Some splitGrid \<and> cellsClean (g_cells splitGrid) \<and>
   cellsClean [oneCell\<lparr>isFilled := True, color := Some ''#888888''\<rparr>] \<and>
   cellsClean [oneCell\<lparr>isFilled := False, color := None\<rparr>] \<and>
   histClean (hist plainApp) \<and>
   histClean (hist (fst (handleCellClick 0 plainApp))) \<and>
   currentState (hist (appRun initialApp [])) = Some INITIAL_STATE \<and>
   cellsClean (cells INITIAL_STATE) \<and>
   map (\<lambda>st. map (\<lambda>c. (isFilled c, color c)) (cells st))
     (history (hist (appRun plainApp [CellClick 0, CellClick 0]))) =
   [[(False, None)], [(True, Some ''#888888'')], [(False, None)]]"
proof -
  have a: "cellsClean [oneCell\<lparr>isFilled := True, color := Some ''#888888''\<rparr>]"
    by (simp add: cellsClean_def)
  have b: "[oneCell\<lparr>isFilled := True, color := Some ''#888888''\<rparr>]
             [0 := paintCell ''#888888'' ([oneCell\<lparr>isFilled := True, color := Some ''#888888''\<rparr>] ! 0)]
           = [oneCell\<lparr>isFilled := False, color := None\<rparr>]"
    by (simp add: paintCell_def)
  have c: "histClean (hist plainApp)"
    by (simp add: plainApp_def useHistory_def histClean_def cellsClean_def maskedState_def oneCell_def)
  have d: "currentState (hist (appRun initialApp [])) = Some INITIAL_STATE"
    by (simp add: appRun_def initialApp_def useHistory_def currentState_def)
  show ?thesis
    using a b c d splitGrid_generated plainApp_click_twice
      unfilled_cells_have_no_color [where bc = "Num 2" and br = NaN and rules = splitRules
        and g = splitGrid and cs = "[oneCell\<lparr>isFilled := True, color := Some ''#888888''\<rparr>]"
        and i = 0 and col = "''#888888''" and app = plainApp and cid = 0 and acts = "[]"
        and st = INITIAL_STATE]
    by simp
qed

section \<open>Properties of the displacement colour\<close>








end
